theory Spec2Isabelle
  imports Main "HOL-Library.Sublist"
begin

section \<open>Card rarity synchronisation: a model of last\_airbender\_sync.py\<close>

text \<open>
  The script reads a column of card names from a spreadsheet, looks each name up in a
  catalog fetched page by page from a card database, and writes a one-letter rarity code
  into the column to the right. The functions of the script are functions here, under
  their own names, and each loop is a recursive function of its own. Exceptions are values
  of the type \<open>error\<close>; the calls the script makes to the outside (catalog requests,
  sleeps, spreadsheet calls, printed lines) are returned as a list of events, in the order
  they happen. The outside is an input: the parsed command line, the outcome of loading
  the credentials, and the replies of the catalog and of the spreadsheet service. A result
  \<open>None\<close> means that the script did not come to an end on the replies given.
\<close>

subsection \<open>Python text\<close>

text \<open>
  A Python string is a \<open>string\<close>, the character of code \<open>n\<close> being the code point
  \<open>n\<close>, from 0 to 255. The whitespace test and the case conversions are Python's on
  these code points. Two of them, U+00B5 and U+00FF, have capitals beyond 255 (U+039C and
  U+0178), so the upper-case form of a text is a list of code points, \<open>points\<close>; and
  since the script shows that form in a message, the messages of exceptions and the lines
  on the error stream are \<open>points\<close> too.
\<close>

type_synonym points = "int list"

definition py_ord :: "char \<Rightarrow> int" where
  "py_ord c = of_char c"

definition py_chr :: "int \<Rightarrow> char" where
  "py_chr i = char_of i"

definition points_of :: "string \<Rightarrow> points" where
  "points_of s = map py_ord s"

text \<open>\<open>str.isspace\<close> on one character; \<open>str.strip\<close> trims these at both ends.\<close>

definition py_isspace :: "char \<Rightarrow> bool" where
  "py_isspace c = (py_ord c \<in> {9, 10, 11, 12, 13, 28, 29, 30, 31, 32, 133, 160})"

definition py_strip :: "string \<Rightarrow> string" where
  "py_strip s = rev (dropWhile py_isspace (rev (dropWhile py_isspace s)))"

text \<open>
  \<open>str.lower\<close>: the letters A to Z and the capitals U+00C0 to U+00DE, the
  multiplication sign U+00D7 apart, move up by 32; every other character stays.
\<close>

definition lower_char :: "char \<Rightarrow> char" where
  "lower_char c =
     (if (py_ord (CHR ''A'') \<le> py_ord c \<and> py_ord c \<le> py_ord (CHR ''Z'')) \<or>
         (192 \<le> py_ord c \<and> py_ord c \<le> 222 \<and> py_ord c \<noteq> 215)
      then py_chr (py_ord c + 32) else c)"

definition py_lower :: "string \<Rightarrow> string" where
  "py_lower s = map lower_char s"

text \<open>
  \<open>str.upper\<close>. \<open>upper_char\<close> is the capital of a character as far as it is
  written in the characters 0 to 255: the letters a to z and the small letters U+00E0 to
  U+00FE, the division sign U+00F7 apart, move down by 32, and the sharp s U+00DF becomes
  "SS"; U+00B5 and U+00FF, whose capitals are beyond 255, are left as they are.
  \<open>upper_points\<close> is the capital as code points, with the capitals of those two as
  Python gives them, and \<open>str_upper\<close> is \<open>str.upper\<close> on a whole text; \<open>py_upper\<close>
  agrees with it on every text without U+00B5 and U+00FF.
\<close>

definition upper_char :: "char \<Rightarrow> string" where
  "upper_char c =
     (if (py_ord (CHR ''a'') \<le> py_ord c \<and> py_ord c \<le> py_ord (CHR ''z'')) \<or>
         (224 \<le> py_ord c \<and> py_ord c \<le> 254 \<and> py_ord c \<noteq> 247)
      then [py_chr (py_ord c - 32)]
      else if py_ord c = 223 then ''SS''
      else [c])"

definition py_upper :: "string \<Rightarrow> string" where
  "py_upper s = concat (map upper_char s)"

definition upper_points :: "char \<Rightarrow> points" where
  "upper_points c =
     (if py_ord c = 181 then [924]
      else if py_ord c = 255 then [376]
      else points_of (upper_char c))"

definition str_upper :: "string \<Rightarrow> points" where
  "str_upper s = concat (map upper_points s)"

text \<open>The decimal text of an integer, as \<open>str\<close> and an f-string give it.\<close>

function digits_of :: "nat \<Rightarrow> string" where
  "digits_of n =
     (if n < 10 then [py_chr (48 + int n)]
      else digits_of (n div 10) @ [py_chr (48 + int (n mod 10))])"
  by pat_completeness auto
termination
  by (relation "measure id") auto

definition py_str :: "int \<Rightarrow> string" where
  "py_str i = (if i < 0 then CHR ''-'' # digits_of (nat (- i)) else digits_of (nat i))"

subsection \<open>Exceptions and events\<close>

text \<open>
  \<open>SheetSyncError\<close> carries its message. \<open>ValueError\<close> is what \<open>int\<close> and
  \<open>time.sleep\<close> raise, \<open>OverflowError\<close> what \<open>time.sleep\<close> raises on a number
  too large for it; \<open>GoogleAuthError\<close> comes from the credential library.
\<close>

datatype error = SheetSyncError points | ValueError | OverflowError | GoogleAuthError points

text \<open>
  The events: a catalog request with its URL and \<open>q\<close> parameter, a sleep, the three
  calls of the spreadsheet service, a line on the output stream and a line on the error
  stream.
\<close>

datatype event =
    HttpGet string "string option"
  | Sleep int
  | SheetsCreate string
  | SheetsGet string string
  | SheetsBatchUpdate string "(string \<times> string) list"
  | Print string
  | PrintErr points

text \<open>\<open>emit evs r\<close>: the events \<open>evs\<close> happen, then the computation \<open>r\<close>.\<close>

fun emit :: "event list \<Rightarrow> ('a \<times> event list) option \<Rightarrow> ('a \<times> event list) option" where
  "emit evs None = None"
| "emit evs (Some (r, l)) = Some (r, evs @ l)"

text \<open>
  \<open>time.sleep\<close> on an integer: it converts the seconds to nanoseconds in 64 bits and
  raises \<open>OverflowError\<close> when they do not fit, then raises \<open>ValueError\<close> on a
  negative length, and sleeps otherwise.
\<close>

definition time_sleep :: "int \<Rightarrow> error + event list" where
  "time_sleep secs =
     (if secs > 9223372036 \<or> secs < - 9223372036 then Inl OverflowError
      else if secs < 0 then Inl ValueError
      else Inr [Sleep secs])"

subsection \<open>Column addressing\<close>

text \<open>\<open>"A" <= char <= "Z"\<close>, on a code point and on a character.\<close>

definition point_AZ :: "int \<Rightarrow> bool" where
  "point_AZ p = (py_ord (CHR ''A'') \<le> p \<and> p \<le> py_ord (CHR ''Z''))"

definition is_AZ :: "char \<Rightarrow> bool" where
  "is_AZ char = point_AZ (py_ord char)"

text \<open>
  The \<open>for char in column\<close> loop of \<open>column_to_index\<close>, over the code points of the
  trimmed, upper-cased column.
\<close>

fun column_loop :: "points \<Rightarrow> points \<Rightarrow> int \<Rightarrow> error + int" where
  "column_loop column [] index = Inr index"
| "column_loop column (char # rest) index =
     (if \<not> point_AZ char
      then Inl (SheetSyncError (points_of ''Invalid column reference: '' @ column))
      else column_loop column rest (index * 26 + (char - py_ord (CHR ''A'') + 1)))"

definition column_to_index :: "string \<Rightarrow> error + int" where
  "column_to_index column0 =
     (let column = str_upper (py_strip column0)
      in if column = []
         then Inl (SheetSyncError (points_of ''Column reference cannot be empty.''))
         else column_loop column column 0)"

text \<open>
  The \<open>while index\<close> loop of \<open>index_to_column\<close>. On its own it runs forever from a
  negative index, so it is a partial function; \<open>index_to_column\<close> enters it from
  \<open>index \<ge> 1\<close> only.
\<close>

partial_function (option) index_loop :: "int \<Rightarrow> string \<Rightarrow> string option" where
  "index_loop index chars =
     (if index \<noteq> 0
      then index_loop ((index - 1) div 26) (chars @ [py_chr (65 + (index - 1) mod 26)])
      else Some chars)"

declare index_loop.simps [code]

definition index_to_column :: "int \<Rightarrow> (error + string) option" where
  "index_to_column index =
     (if index < 1 then Some (Inl (SheetSyncError (points_of ''Column index must be >= 1.'')))
      else case index_loop index [] of
             None \<Rightarrow> None
           | Some chars \<Rightarrow> Some (Inr (rev chars)))"

text \<open>The value of a string of capital letters in bijective base 26.\<close>

definition letters_value :: "string \<Rightarrow> int" where
  "letters_value s = foldl (\<lambda>index char. index * 26 + (py_ord char - 64)) 0 s"

definition is_letter :: "char \<Rightarrow> bool" where
  "is_letter c = (is_AZ c \<or> (py_ord (CHR ''a'') \<le> py_ord c \<and> py_ord c \<le> py_ord (CHR ''z'')))"

subsection \<open>Rarity codes\<close>

definition RARITY_MAP :: "string \<rightharpoonup> string" where
  "RARITY_MAP = [''mythic'' \<mapsto> ''M'', ''rare'' \<mapsto> ''R'', ''uncommon'' \<mapsto> ''U'',
                 ''common'' \<mapsto> ''C'']"

record CardRecord =
  name :: string
  rarity :: string

definition rarity_code :: "CardRecord \<Rightarrow> string option" where
  "rarity_code rec = RARITY_MAP (py_lower (rarity rec))"

subsection \<open>The catalog fetch\<close>

text \<open>
  One record of a page: the values of its keys \<open>name\<close> and \<open>rarity\<close>, \<open>None\<close> for a
  key that is absent or null. A page is the JSON object of a reply: the list under
  \<open>data\<close> (empty when absent), \<open>has_more\<close> and \<open>next_page\<close>.
\<close>

record card_json =
  json_name :: "string option"
  json_rarity :: "string option"

record payload =
  data :: "card_json list"
  has_more :: bool
  next_page :: "string option"

text \<open>
  The \<open>Retry-After\<close> header of a reply, by what \<open>int\<close> makes of its text: no
  header, a text that reads as an integer, or a text on which \<open>int\<close> raises.
\<close>

datatype retry_after = NoRetryAfter | RetryAfter int | BadRetryAfter

record response =
  status_code :: int
  retry_after :: retry_after
  body_text :: string
  json :: payload

text \<open>What \<open>session.get\<close> does: it raises a \<open>RequestException\<close> or returns a response.\<close>

datatype reply = RequestException string | Response response

definition SCRYFALL_SEARCH_ENDPOINT :: string where
  "SCRYFALL_SEARCH_ENDPOINT = ''https://api.scryfall.com/cards/search''"

text \<open>\<open>response.ok\<close>: the status is neither a client error nor a server error.\<close>

definition ok :: "response \<Rightarrow> bool" where
  "ok r = (\<not> (400 \<le> status_code r \<and> status_code r < 600))"

text \<open>\<open>bool(url)\<close> for a URL that may be \<open>None\<close>.\<close>

definition truthy :: "string option \<Rightarrow> bool" where
  "truthy s = (s \<noteq> None \<and> s \<noteq> Some [])"

text \<open>
  \<open>int(response.headers.get("Retry-After", 2))\<close>: 2 without the header, the number
  the header reads as, or the \<open>ValueError\<close> of \<open>int\<close>.
\<close>

definition retry_after_seconds :: "retry_after \<Rightarrow> error + int" where
  "retry_after_seconds hdr =
     (case hdr of
        NoRetryAfter \<Rightarrow> Inr 2
      | RetryAfter n \<Rightarrow> Inr n
      | BadRetryAfter \<Rightarrow> Inl ValueError)"

text \<open>The \<open>for card in payload.get("data", [])\<close> loop.\<close>

fun add_cards :: "card_json list \<Rightarrow> (string \<rightharpoonup> CardRecord) \<Rightarrow> (string \<rightharpoonup> CardRecord)" where
  "add_cards [] cards = cards"
| "add_cards (rec # rest) cards =
     (let nm = py_strip (case json_name rec of None \<Rightarrow> [] | Some n \<Rightarrow> n);
          rar = json_rarity rec
      in if nm = [] \<or> \<not> truthy rar then add_cards rest cards
         else add_cards rest (cards(nm \<mapsto> \<lparr>name = nm, rarity = the rar\<rparr>)))"

text \<open>
  The \<open>while url\<close> loop. The replies are those of the requests the loop makes, in
  order; the loop state is \<open>url\<close>, \<open>params\<close> (the \<open>q\<close> parameter, if still set),
  \<open>retries\<close>, a count from 0 up, and \<open>cards\<close>.
\<close>

fun fetch_loop ::
  "reply list \<Rightarrow> string option \<Rightarrow> string option \<Rightarrow> nat \<Rightarrow> (string \<rightharpoonup> CardRecord) \<Rightarrow>
     ((error + (string \<rightharpoonup> CardRecord)) \<times> event list) option" where
  "fetch_loop [] url params retries cards =
     (if \<not> truthy url then Some (Inr cards, []) else None)"
| "fetch_loop (reply # rest) url params retries cards =
     (if \<not> truthy url then Some (Inr cards, [])
      else emit [HttpGet (the url) (if url = Some SCRYFALL_SEARCH_ENDPOINT then params else None)]
        (case reply of
           RequestException exc \<Rightarrow>
             Some (Inl (SheetSyncError (points_of (''Failed to contact Scryfall: '' @ exc))), [])
         | Response r \<Rightarrow>
             if status_code r = 429 then
               (case retry_after_seconds (retry_after r) of
                  Inl exc \<Rightarrow> Some (Inl exc, [])
                | Inr wait_time \<Rightarrow>
                    (case time_sleep wait_time of
                       Inl exc \<Rightarrow> Some (Inl exc, [])
                     | Inr slept \<Rightarrow>
                         emit slept
                           (if retries + 1 > 5
                            then Some (Inl (SheetSyncError (points_of
                                   ''Exceeded retry attempts due to Scryfall rate limits.'')), [])
                            else fetch_loop rest url params (retries + 1) cards)))
             else if 500 \<le> status_code r \<and> status_code r < 600 then
               (if retries + 1 > 5
                then Some (Inl (SheetSyncError (points_of
                       (''Scryfall returned '' @ py_str (status_code r)
                          @ '' repeatedly. Aborting.''))), [])
                else
                  (case time_sleep (2 ^ (retries + 1)) of
                     Inl exc \<Rightarrow> Some (Inl exc, [])
                   | Inr slept \<Rightarrow> emit slept (fetch_loop rest url params (retries + 1) cards)))
             else if \<not> ok r then
               Some (Inl (SheetSyncError (points_of
                      (''Scryfall request failed with '' @ py_str (status_code r) @ '': ''
                         @ body_text r))), [])
             else
               (let cards' = add_cards (data (json r)) cards
                in if has_more (json r) then fetch_loop rest (next_page (json r)) None 0 cards'
                   else Some (Inr cards', []))))"


definition continues :: "response \<Rightarrow> bool" where
  "continues r = (has_more (json r) \<and> truthy (next_page (json r)))"



definition fetch_scryfall_cards ::
  "string \<Rightarrow> reply list \<Rightarrow> ((error + (string \<rightharpoonup> CardRecord)) \<times> event list) option" where
  "fetch_scryfall_cards set_code replies =
     fetch_loop replies (Some SCRYFALL_SEARCH_ENDPOINT) (Some (''set:'' @ set_code)) 0 Map.empty"

text \<open>
  Two replies for examples: a page with status 200, and a rate-limit reply with a given
  \<open>Retry-After\<close> header.
\<close>

definition page_reply :: "card_json list \<Rightarrow> bool \<Rightarrow> string option \<Rightarrow> response" where
  "page_reply cs hm nxt =
     \<lparr>status_code = 200, retry_after = NoRetryAfter, body_text = [],
      json = \<lparr>data = cs, has_more = hm, next_page = nxt\<rparr>\<rparr>"


subsection \<open>The spreadsheet service\<close>

text \<open>
  What the Sheets API answers in one run: to \<open>create\<close> a spreadsheet id, to
  \<open>values().get\<close> the rows of the range (the list under \<open>values\<close>, empty when absent),
  to \<open>values().batchUpdate\<close> nothing; each may raise an \<open>HttpError\<close> instead, given
  here by its text.
\<close>

record service =
  create_reply :: "string + string"
  get_reply :: "string + string list list"
  update_reply :: "string option"

definition create_spreadsheet :: "service \<Rightarrow> string \<Rightarrow> (error + string \<times> string) \<times> event list" where
  "create_spreadsheet srv title =
     (case create_reply srv of
        Inl exc \<Rightarrow> (Inl (SheetSyncError (points_of (''Failed to create spreadsheet: '' @ exc))),
                    [SheetsCreate title])
      | Inr sheet_id \<Rightarrow>
          (Inr (sheet_id, ''https://docs.google.com/spreadsheets/d/'' @ sheet_id),
           [SheetsCreate title]))"

text \<open>The \<open>enumerate(values, start=start_row)\<close> loop of \<open>read_sheet_rows\<close>.\<close>

fun rows_loop :: "string list list \<Rightarrow> int \<Rightarrow> (int \<times> string) list \<Rightarrow> (int \<times> string) list" where
  "rows_loop [] index rows = rows"
| "rows_loop (row # rest) index rows =
     (case row of
        [] \<Rightarrow> rows_loop rest (index + 1) rows
      | cell # _ \<Rightarrow> rows_loop rest (index + 1) (rows @ [(index, cell)]))"

definition read_sheet_rows ::
  "service \<Rightarrow> string \<Rightarrow> string \<Rightarrow> string \<Rightarrow> int \<Rightarrow> (error + (int \<times> string) list) \<times> event list" where
  "read_sheet_rows srv spreadsheet_id wsheet col first_row =
     (if first_row < 1 then (Inl (SheetSyncError (points_of ''start_row must be >= 1'')), [])
      else
        let range_notation = wsheet @ ''!'' @ col @ py_str first_row @ '':'' @ col
        in case get_reply srv of
             Inl exc \<Rightarrow> (Inl (SheetSyncError (points_of (''Failed to read sheet values: '' @ exc))),
                         [SheetsGet spreadsheet_id range_notation])
           | Inr vals \<Rightarrow> (Inr (rows_loop vals first_row []),
                          [SheetsGet spreadsheet_id range_notation]))"

definition write_rarities ::
  "service \<Rightarrow> string \<Rightarrow> string \<Rightarrow> string \<Rightarrow> (int \<times> string) list \<Rightarrow> (error + unit) \<times> event list" where
  "write_rarities srv spreadsheet_id wsheet target_column updates =
     (if updates = [] then (Inr (), [])
      else
        let data = map (\<lambda>(row_index, code). (wsheet @ ''!'' @ target_column @ py_str row_index, code))
                       updates
        in case update_reply srv of
             Some exc \<Rightarrow> (Inl (SheetSyncError (points_of (''Failed to update sheet values: '' @ exc))),
                          [SheetsBatchUpdate spreadsheet_id data])
           | None \<Rightarrow> (Inr (), [SheetsBatchUpdate spreadsheet_id data]))"

subsection \<open>Reconciliation and the sync\<close>

text \<open>The \<open>for row_index, card_name in rows\<close> loop of \<open>sync_sheet\<close>.\<close>

fun reconcile_loop ::
  "(string \<rightharpoonup> CardRecord) \<Rightarrow> (int \<times> string) list \<Rightarrow> (int \<times> string) list \<Rightarrow> string list \<Rightarrow>
     (int \<times> string) list \<times> string list" where
  "reconcile_loop cards [] updates missing = (updates, missing)"
| "reconcile_loop cards ((row_index, card_name) # rest) updates missing =
     (let normalized_name = py_strip card_name
      in if normalized_name = [] then reconcile_loop cards rest updates missing
         else case cards normalized_name of
                None \<Rightarrow> reconcile_loop cards rest updates (missing @ [card_name])
              | Some rec \<Rightarrow>
                  let code = rarity_code rec
                  in if \<not> truthy code
                     then reconcile_loop cards rest updates (missing @ [card_name])
                     else reconcile_loop cards rest (updates @ [(row_index, the code)]) missing)"

record SyncResult =
  updated :: int
  missing_cards :: "string list"

definition preview :: "int \<times> string \<Rightarrow> event" where
  "preview u = Print (''Would update row '' @ py_str (fst u) @ '' to '' @ snd u)"

definition sync_sheet ::
  "string \<Rightarrow> string \<Rightarrow> string \<Rightarrow> int \<Rightarrow> (string \<rightharpoonup> CardRecord) \<Rightarrow> service \<Rightarrow> bool \<Rightarrow>
     ((error + SyncResult) \<times> event list) option" where
  "sync_sheet spreadsheet_id wsheet name_column first_row cards srv dry =
     (case read_sheet_rows srv spreadsheet_id wsheet name_column first_row of
        (Inl e, l) \<Rightarrow> Some (Inl e, l)
      | (Inr rows, l) \<Rightarrow>
          emit l
            (case column_to_index name_column of
               Inl e \<Rightarrow> Some (Inl e, [])
             | Inr i \<Rightarrow>
                 (case index_to_column (i + 1) of
                    None \<Rightarrow> None
                  | Some (Inl e) \<Rightarrow> Some (Inl e, [])
                  | Some (Inr target_column) \<Rightarrow>
                      (case reconcile_loop cards rows [] [] of
                         (updates, missing) \<Rightarrow>
                           if dry
                           then Some (Inr \<lparr>updated = int (length updates), missing_cards = missing\<rparr>,
                                      map preview updates)
                           else
                             (case write_rarities srv spreadsheet_id wsheet target_column updates of
                                (Inl e, l') \<Rightarrow> Some (Inl e, l')
                              | (Inr _, l') \<Rightarrow>
                                  Some (Inr \<lparr>updated = int (length updates),
                                             missing_cards = missing\<rparr>, l'))))))"

subsection \<open>The run\<close>

text \<open>
  \<open>parse_sheet_id\<close> searches the URL for \<open>/spreadsheets/d/\<close> followed by at least one
  character of the class \<open>[a-zA-Z0-9-_]\<close>, leftmost first, and returns the longest run of
  such characters there.
\<close>

definition id_char :: "char \<Rightarrow> bool" where
  "id_char c =
     ((py_ord (CHR ''a'') \<le> py_ord c \<and> py_ord c \<le> py_ord (CHR ''z'')) \<or>
      (py_ord (CHR ''A'') \<le> py_ord c \<and> py_ord c \<le> py_ord (CHR ''Z'')) \<or>
      (py_ord (CHR ''0'') \<le> py_ord c \<and> py_ord c \<le> py_ord (CHR ''9'')) \<or>
      c = CHR ''-'' \<or> c = CHR ''_'')"

fun re_search :: "string \<Rightarrow> string option" where
  "re_search [] = None"
| "re_search (c # rest) =
     (let s = c # rest; g = takeWhile id_char (drop 16 s)
      in if take 16 s = ''/spreadsheets/d/'' \<and> g \<noteq> [] then Some g else re_search rest)"

definition parse_sheet_id :: "string \<Rightarrow> string option" where
  "parse_sheet_id sheet_url = (if sheet_url = [] then None else re_search sheet_url)"

text \<open>
  The command line as \<open>parse_args\<close> returns it, and the outside of one run: what
  \<open>get_credentials\<close> does, the spreadsheet service, and the replies of the catalog.
\<close>

record args =
  sheet_url :: "string option"
  worksheet :: string
  column :: string
  start_row :: int
  set_code :: string
  create_title :: string
  dry_run :: bool

record env =
  credentials :: "error + unit"
  sheets :: service
  catalog :: "reply list"

text \<open>
  \<open>except SheetSyncError as exc: print(exc, file=sys.stderr); return 1\<close>; any other
  exception leaves \<open>main\<close>. Around \<open>get_credentials\<close> a \<open>GoogleAuthError\<close> is
  caught as well, and the line starts with "Credential error: ".
\<close>

fun credential_report :: "error \<Rightarrow> (error + int) \<times> event list" where
  "credential_report (SheetSyncError m) =
     (Inr 1, [PrintErr (points_of ''Credential error: '' @ m)])"
| "credential_report (GoogleAuthError m) =
     (Inr 1, [PrintErr (points_of ''Credential error: '' @ m)])"
| "credential_report e = (Inl e, [])"

fun report :: "error \<Rightarrow> (error + int) \<times> event list" where
  "report (SheetSyncError m) = (Inr 1, [PrintErr m])"
| "report e = (Inl e, [])"

definition report_missing :: "SyncResult \<Rightarrow> event list" where
  "report_missing result =
     (if missing_cards result \<noteq> []
      then Print ''The following cards were not found:''
             # map (\<lambda>n. Print ('' - '' @ n)) (missing_cards result)
      else [])"

text \<open>
  The lines of \<open>main\<close> that settle the spreadsheet id: the id in the URL given, or
  else the id of a spreadsheet created now, whose URL is printed.
\<close>

definition resolve_sheet :: "args \<Rightarrow> service \<Rightarrow> (error + string) \<times> event list" where
  "resolve_sheet a srv =
     (case (case sheet_url a of
              None \<Rightarrow> None
            | Some u \<Rightarrow> if u = [] then None else parse_sheet_id u) of
        Some sheet_id \<Rightarrow> (Inr sheet_id, [])
      | None \<Rightarrow>
          (case create_spreadsheet srv (create_title a) of
             (Inl exc, l) \<Rightarrow> (Inl exc, l)
           | (Inr (sheet_id, url), l) \<Rightarrow>
               (Inr sheet_id, l @ [Print (''Created spreadsheet: '' @ url)])))"

definition main :: "args \<Rightarrow> env \<Rightarrow> ((error + int) \<times> event list) option" where
  "main a e =
     (case credentials e of
        Inl exc \<Rightarrow> Some (credential_report exc)
      | Inr creds \<Rightarrow>
          (case resolve_sheet a (sheets e) of
             (Inl exc, l) \<Rightarrow> Some (fst (report exc), l @ snd (report exc))
           | (Inr sheet_id, l) \<Rightarrow>
               emit l
                 (case fetch_scryfall_cards (set_code a) (catalog e) of
                    None \<Rightarrow> None
                  | Some (Inl exc, l1) \<Rightarrow> Some (fst (report exc), l1 @ snd (report exc))
                  | Some (Inr cards, l1) \<Rightarrow>
                      emit l1
                        (case sync_sheet sheet_id (worksheet a) (column a) (start_row a)
                                cards (sheets e) (dry_run a) of
                           None \<Rightarrow> None
                         | Some (Inl exc, l2) \<Rightarrow> Some (fst (report exc), l2 @ snd (report exc))
                         | Some (Inr result, l2) \<Rightarrow>
                             Some (Inr 0,
                                   l2 @ report_missing result
                                      @ [Print (''Updated '' @ py_str (updated result)
                                                @ '' rows.'')])))))"

text \<open>The command line without arguments, by the defaults of \<open>parse_args\<close>.\<close>

definition default_args :: args where
  "default_args =
     \<lparr>sheet_url = None, worksheet = ''Sheet1'', column = ''A'', start_row = 2,
      set_code = ''tla'', create_title = ''The Last Airbender Sync'', dry_run = False\<rparr>"

text \<open>The events that are calls over the network, and those that reach the spreadsheet.\<close>

fun network_call :: "event \<Rightarrow> bool" where
  "network_call (HttpGet u p) = True"
| "network_call (SheetsCreate t) = True"
| "network_call (SheetsGet i r) = True"
| "network_call (SheetsBatchUpdate i d) = True"
| "network_call ev = False"

fun sheet_read :: "event \<Rightarrow> bool" where
  "sheet_read (SheetsGet i r) = True"
| "sheet_read ev = False"

fun sheet_write :: "event \<Rightarrow> bool" where
  "sheet_write (SheetsBatchUpdate i d) = True"
| "sheet_write ev = False"

definition off_sheet :: "event \<Rightarrow> bool" where
  "off_sheet ev = (\<not> sheet_read ev \<and> \<not> sheet_write ev)"

fun printed :: "event \<Rightarrow> bool" where
  "printed (Print s) = True"
| "printed ev = False"

section \<open>Column addressing\<close>

lemma py_ord_chr: "0 \<le> i \<Longrightarrow> i < 256 \<Longrightarrow> py_ord (py_chr i) = i"
  by (simp add: py_ord_def py_chr_def)

lemma py_chr_ord: "py_chr (py_ord c) = c"
  by (simp add: py_ord_def py_chr_def)

lemma py_ord_range: "0 \<le> py_ord c \<and> py_ord c < 256"
  unfolding py_ord_def
  by (metis of_char_mod_256 pos_mod_bound pos_mod_sign zero_less_numeral)

lemma py_ord_inject: "py_ord c = py_ord d \<Longrightarrow> c = d"
  by (metis py_chr_ord)

lemma ords: "py_ord (CHR ''A'') = 65" "py_ord (CHR ''Z'') = 90" "py_ord (CHR ''a'') = 97" "py_ord (CHR ''z'') = 122"
  by (simp_all add: py_ord_def)

lemma column_loop_ok:
  "\<forall>p\<in>set ps. point_AZ p \<Longrightarrow>
     column_loop col ps i = Inr (foldl (\<lambda>index p. index * 26 + (p - 64)) i ps)"
  by (induction ps arbitrary: i) (simp_all add: ords)

lemma column_loop_bad:
  "\<exists>p\<in>set ps. \<not> point_AZ p \<Longrightarrow>
     column_loop col ps i = Inl (SheetSyncError (points_of ''Invalid column reference: '' @ col))"
  by (induction ps arbitrary: i) auto

lemma letters_value_points:
  "foldl (\<lambda>index p. index * 26 + (p - 64)) 0 (points_of s) = letters_value s"
  by (simp add: points_of_def letters_value_def foldl_map)

lemma letters_value_snoc:
  "letters_value (s @ [c]) = letters_value s * 26 + (py_ord c - 64)"
  by (simp add: letters_value_def)

lemma letters_value_nonneg: "\<forall>ch\<in>set s. is_AZ ch \<Longrightarrow> 0 \<le> letters_value s"
  by (induction s rule: rev_induct)
     (auto simp: letters_value_snoc is_AZ_def point_AZ_def ords letters_value_def)

lemma letters_value_pos: "\<forall>ch\<in>set s. is_AZ ch \<Longrightarrow> s \<noteq> [] \<Longrightarrow> 1 \<le> letters_value s"
proof (cases s rule: rev_cases)
  case Nil
  then show "\<forall>ch\<in>set s. is_AZ ch \<Longrightarrow> s \<noteq> [] \<Longrightarrow> 1 \<le> letters_value s" by simp
next
  case (snoc ys y)
  assume a: "\<forall>ch\<in>set s. is_AZ ch"
  then have "0 \<le> letters_value ys" using snoc by (intro letters_value_nonneg) simp
  moreover have "65 \<le> py_ord y" using a snoc by (simp add: is_AZ_def point_AZ_def ords)
  ultimately show "1 \<le> letters_value s" by (simp add: snoc letters_value_snoc)
qed

lemma index_loop_letters:
  "\<forall>ch\<in>set s. is_AZ ch \<Longrightarrow> index_loop (letters_value s) chars = Some (chars @ rev s)"
proof (induction s arbitrary: chars rule: rev_induct)
  case Nil
  show ?case by (subst index_loop.simps) (simp add: letters_value_def)
next
  case (snoc c s)
  then have az: "\<forall>ch\<in>set s. is_AZ ch" and c: "is_AZ c" by simp_all
  define d where "d = py_ord c - 65"
  have d: "0 \<le> d" "d < 26" using c by (simp_all add: d_def is_AZ_def point_AZ_def ords)
  have v: "letters_value (s @ [c]) = letters_value s * 26 + d + 1"
    by (simp add: letters_value_snoc d_def)
  have nn: "0 \<le> letters_value s" using az by (rule letters_value_nonneg)
  have ne: "letters_value (s @ [c]) \<noteq> 0" using v nn d by simp
  have dv: "(letters_value (s @ [c]) - 1) div 26 = letters_value s"
    using d by (simp add: v)
  have md: "(letters_value (s @ [c]) - 1) mod 26 = d"
    using d by (simp add: v)
  have ch: "py_chr (65 + d) = c" by (simp add: d_def py_chr_ord)
  show ?case
    by (subst index_loop.simps) (simp add: ne dv md ch snoc.IH [OF az])
qed

lemma index_to_column_letters:
  "\<forall>ch\<in>set s. is_AZ ch \<Longrightarrow> s \<noteq> [] \<Longrightarrow> index_to_column (letters_value s) = Some (Inr s)"
  using letters_value_pos [of s]
  by (simp add: index_to_column_def index_loop_letters)

lemma upper_char_letter: "is_letter c \<Longrightarrow> \<exists>u. upper_char c = [u] \<and> is_AZ u"
  using py_ord_range [of c]
  by (auto simp: is_letter_def upper_char_def is_AZ_def point_AZ_def ords py_ord_chr)

lemma py_upper_letters: "\<forall>ch\<in>set s. is_letter ch \<Longrightarrow> \<forall>ch\<in>set (py_upper s). is_AZ ch"
  using upper_char_letter by (fastforce simp: py_upper_def)

lemma upper_points_plain:
  "py_ord c \<noteq> 181 \<Longrightarrow> py_ord c \<noteq> 255 \<Longrightarrow> upper_points c = points_of (upper_char c)"
  by (simp add: upper_points_def)

lemma str_upper_plain:
  "\<forall>c\<in>set s. py_ord c \<noteq> 181 \<and> py_ord c \<noteq> 255 \<Longrightarrow> str_upper s = points_of (py_upper s)"
  by (induction s) (simp_all add: str_upper_def py_upper_def points_of_def upper_points_def)

lemma letter_plain: "is_letter c \<Longrightarrow> py_ord c \<noteq> 181 \<and> py_ord c \<noteq> 255"
  by (auto simp: is_letter_def is_AZ_def point_AZ_def ords)

lemma str_upper_letters:
  "\<forall>ch\<in>set s. is_letter ch \<Longrightarrow> str_upper s = points_of (py_upper s)"
  by (rule str_upper_plain) (simp add: letter_plain)

lemma letter_not_space: "is_letter c \<Longrightarrow> \<not> py_isspace c"
  by (auto simp: is_letter_def is_AZ_def point_AZ_def py_isspace_def ords)

lemma dropWhile_id: "s \<noteq> [] \<Longrightarrow> \<not> P (hd s) \<Longrightarrow> dropWhile P s = s"
  by (cases s) simp_all

lemma py_strip_around:
  assumes "\<forall>ch\<in>set pre. py_isspace ch" "\<forall>ch\<in>set post. py_isspace ch"
    and "s \<noteq> []" "\<not> py_isspace (hd s)" "\<not> py_isspace (last s)"
  shows "py_strip (pre @ s @ post) = s"
proof -
  have 1: "dropWhile py_isspace (pre @ s @ post) = s @ post"
    using assms by (simp add: dropWhile_append3 dropWhile_id hd_append)
  have "dropWhile py_isspace (rev post @ rev s) = dropWhile py_isspace (rev s)"
    using assms(2) by (intro dropWhile_append2) simp
  also have "\<dots> = rev s"
    using assms(3,5) by (intro dropWhile_id) (simp_all add: hd_rev)
  finally have 2: "dropWhile py_isspace (rev post @ rev s) = rev s" .
  show ?thesis by (simp add: py_strip_def 1 2)
qed

lemma py_strip_spaces:
  assumes "\<forall>ch\<in>set s. py_isspace ch"
  shows "py_strip s = []"
  using assms by (auto simp: py_strip_def dest: set_dropWhileD)

lemma column_to_index_valid:
  assumes "c \<noteq> []" "\<forall>ch\<in>set c. is_letter ch"
  shows "column_to_index c = Inr (letters_value (py_upper c))"
proof -
  have "py_strip ([] @ c @ []) = c"
    using assms by (intro py_strip_around) (auto simp: letter_not_space)
  then have s: "py_strip c = c" by simp
  obtain u where "upper_char (hd c) = [u]"
    using assms upper_char_letter [of "hd c"] by auto
  then have u: "py_upper c \<noteq> []" using assms(1) by (cases c) (simp_all add: py_upper_def)
  have az: "\<forall>p\<in>set (points_of (py_upper c)). point_AZ p"
    using py_upper_letters [OF assms(2)] by (simp add: points_of_def is_AZ_def)
  have u': "points_of (py_upper c) \<noteq> []" using u by (simp add: points_of_def)
  show ?thesis
    using u' az
    by (simp add: column_to_index_def s str_upper_letters [OF assms(2)] column_loop_ok
        letters_value_points)
qed


text \<open>
  Claim C3. For every valid column reference \<open>c\<close>, a non-empty string of the letters
  A to Z in either case and of any length, \<open>column_to_index c\<close> returns an index, and
  \<open>index_to_column\<close> of that index returns the upper-case form of \<open>c\<close>. In particular
  "A" is column 1, "Z" is 26, "AA" is 27, and column 27 is "AA".
\<close>
theorem column_round_trip:
  "(c \<noteq> [] \<and> (\<forall>ch\<in>set c. is_letter ch) \<longrightarrow>
      (\<exists>i. column_to_index c = Inr i \<and> index_to_column i = Some (Inr (py_upper c))))
   \<and> column_to_index ''A'' = Inr 1 \<and> column_to_index ''Z'' = Inr 26
   \<and> column_to_index ''AA'' = Inr 27 \<and> index_to_column 27 = Some (Inr ''AA'')"
proof -
  have "\<exists>i. column_to_index c = Inr i \<and> index_to_column i = Some (Inr (py_upper c))"
    if a: "c \<noteq> []" "\<forall>ch\<in>set c. is_letter ch"
  proof -
    obtain u where "upper_char (hd c) = [u]"
      using a upper_char_letter [of "hd c"] by auto
    then have "py_upper c \<noteq> []" using a(1) by (cases c) (simp_all add: py_upper_def)
    then have "index_to_column (letters_value (py_upper c)) = Some (Inr (py_upper c))"
      using py_upper_letters [OF a(2)] by (simp add: index_to_column_letters)
    then show ?thesis using column_to_index_valid [OF a] by simp
  qed
  moreover have "column_to_index ''A'' = Inr 1" by code_simp
  moreover have "column_to_index ''Z'' = Inr 26" by code_simp
  moreover have "column_to_index ''AA'' = Inr 27" by code_simp
  moreover have "index_to_column 27 = Some (Inr ''AA'')" by code_simp
  ultimately show ?thesis by blast
qed

text \<open>Claim C3 at the column "bC", which is column 55 and comes back as "BC".\<close>
theorem column_round_trip_witness:
  "''bC'' \<noteq> [] \<and> list_all is_letter ''bC'' \<and>
   (\<exists>i. column_to_index ''bC'' = Inr i \<and> index_to_column i = Some (Inr ''BC''))"
proof -
  have h: "''bC'' \<noteq> [] \<and> (\<forall>ch\<in>set ''bC''. is_letter ch)"
    by (simp add: is_letter_def is_AZ_def point_AZ_def py_ord_def)
  have u: "py_upper ''bC'' = ''BC''" by code_simp
  show ?thesis
    using h column_round_trip [of "''bC''", THEN conjunct1]
    by (simp only: u list_all_iff) blast
qed




text \<open>
  Claim C10. \<open>column_to_index\<close> trims its argument before it checks and converts it:
  on a non-empty string of letters with whitespace before and after, it returns the value
  of the letters in upper case, as on " a ", which is column 1; on a string of whitespace
  only it fails as on the empty string, with the message that the reference is empty.
\<close>
theorem column_to_index_strips:
  "((\<forall>ch\<in>set pre. py_isspace ch) \<and> (\<forall>ch\<in>set post. py_isspace ch) \<and>
    s \<noteq> [] \<and> (\<forall>ch\<in>set s. is_letter ch) \<longrightarrow>
      column_to_index (pre @ s @ post) = Inr (letters_value (py_upper s)))
   \<and> ((\<forall>ch\<in>set ws. py_isspace ch) \<longrightarrow> column_to_index ws = column_to_index [])
   \<and> column_to_index [] = Inl (SheetSyncError (points_of ''Column reference cannot be empty.''))
   \<and> column_to_index '' a '' = Inr 1"
proof -
  have "column_to_index (pre @ s @ post) = Inr (letters_value (py_upper s))"
    if a: "\<forall>ch\<in>set pre. py_isspace ch" "\<forall>ch\<in>set post. py_isspace ch"
      "s \<noteq> []" "\<forall>ch\<in>set s. is_letter ch"
  proof -
    have "py_strip (pre @ s @ post) = s"
      using a by (intro py_strip_around) (simp_all add: letter_not_space)
    moreover have "py_strip s = s"
      using py_strip_around [of "[]" "[]" s] a by (simp add: letter_not_space)
    ultimately have "column_to_index (pre @ s @ post) = column_to_index s"
      by (simp add: column_to_index_def)
    then show ?thesis using column_to_index_valid [OF a(3,4)] by simp
  qed
  moreover have "column_to_index ws = column_to_index []" if "\<forall>ch\<in>set ws. py_isspace ch"
    using py_strip_spaces [OF that] py_strip_spaces [of "[]"] by (simp add: column_to_index_def)
  moreover have "column_to_index [] =
      Inl (SheetSyncError (points_of ''Column reference cannot be empty.''))"
    by code_simp
  moreover have "column_to_index '' a '' = Inr 1" by code_simp
  ultimately show ?thesis by blast
qed

text \<open>
  Claim C10 at two spaces, "ab" and a tab; at a no-break space, "a" and a next-line
  character U+0085; and at a line feed followed by a no-break space.
\<close>
theorem column_to_index_strips_witness:
  "column_to_index (''  '' @ ''ab'' @ [CHR 0x09]) = Inr 28 \<and>
   column_to_index ([CHR 0xA0] @ ''a'' @ [CHR 0x85]) = Inr 1 \<and>
   column_to_index [CHR 0x0A, CHR 0xA0] =
     Inl (SheetSyncError (points_of ''Column reference cannot be empty.''))"
proof -
  have h1: "(\<forall>ch\<in>set ''  ''. py_isspace ch) \<and> (\<forall>ch\<in>set [CHR 0x09]. py_isspace ch) \<and>
      ''ab'' \<noteq> [] \<and> (\<forall>ch\<in>set ''ab''. is_letter ch)"
    by (simp add: py_isspace_def is_letter_def is_AZ_def point_AZ_def py_ord_def)
  have h2: "\<forall>ch\<in>set [CHR 0x0A, CHR 0xA0]. py_isspace ch"
    by (simp add: py_isspace_def py_ord_def)
  have h3: "(\<forall>ch\<in>set [CHR 0xA0]. py_isspace ch) \<and> (\<forall>ch\<in>set [CHR 0x85]. py_isspace ch) \<and>
      ''a'' \<noteq> [] \<and> (\<forall>ch\<in>set ''a''. is_letter ch)"
    by (simp add: py_isspace_def is_letter_def is_AZ_def point_AZ_def py_ord_def)
  have v: "letters_value (py_upper ''ab'') = 28" by code_simp
  have v3: "letters_value (py_upper ''a'') = 1" by code_simp
  note t = column_to_index_strips [of "''  ''" "[CHR 0x09]" "''ab''" "[CHR 0x0A, CHR 0xA0]"]
  note t3 = column_to_index_strips [of "[CHR 0xA0]" "[CHR 0x85]" "''a''", THEN conjunct1]
  have "column_to_index ([CHR 0xA0] @ ''a'' @ [CHR 0x85]) = Inr 1"
    using h3 t3 by (simp only: v3) blast
  then show ?thesis
    using h1 h2 t by (simp only: v) blast
qed

lemma lower_lower_char: "lower_char (lower_char c) = lower_char c"
  using py_ord_range [of c]
  by (auto simp: lower_char_def ords py_ord_chr py_chr_ord)

lemma py_lower_lower: "py_lower (py_lower s) = py_lower s"
  by (simp add: py_lower_def lower_lower_char)

lemma lower_upper_char:
  "py_ord c \<noteq> 223 \<Longrightarrow> map lower_char (upper_char c) = [lower_char c]"
  using py_ord_range [of c]
  by (auto simp: lower_char_def upper_char_def ords py_ord_chr py_chr_ord)

lemma py_lower_upper_plain:
  "\<forall>c\<in>set s. py_ord c \<noteq> 223 \<Longrightarrow> py_lower (py_upper s) = py_lower s"
  by (induction s) (simp_all add: py_lower_def py_upper_def lower_upper_char)

lemma sharp_s_lower: "py_ord c = 223 \<Longrightarrow> c \<in> set s \<Longrightarrow> c \<in> set (py_lower s)"
  by (force simp: py_lower_def lower_char_def ords)

lemma sharp_s_upper:
  assumes "py_ord c = 223" "c \<in> set s"
  shows "CHR ''s'' \<in> set (py_lower (py_upper s))"
proof -
  have "upper_char c = ''SS''" using assms(1) by (simp add: upper_char_def ords)
  then have "CHR ''S'' \<in> set (py_upper s)" using assms(2) by (force simp: py_upper_def)
  moreover have "lower_char (CHR ''S'') = CHR ''s''" by code_simp
  ultimately show ?thesis by (force simp: py_lower_def)
qed

lemma RARITY_MAP_keys:
  "RARITY_MAP x \<noteq> None \<Longrightarrow>
     x = ''mythic'' \<or> x = ''rare'' \<or> x = ''uncommon'' \<or> x = ''common''"
  by (auto simp: RARITY_MAP_def split: if_splits)

lemma RARITY_MAP_no_s:
  assumes "CHR ''s'' \<in> set x"
  shows "RARITY_MAP x = None"
proof (rule ccontr)
  assume "RARITY_MAP x \<noteq> None"
  from RARITY_MAP_keys [OF this] assms show False by auto
qed

lemma RARITY_MAP_no_sharp_s:
  assumes "py_ord c = 223" "c \<in> set x"
  shows "RARITY_MAP x = None"
proof (rule ccontr)
  assume "RARITY_MAP x \<noteq> None"
  from RARITY_MAP_keys [OF this] assms show False by (auto simp: py_ord_def)
qed

lemma rarity_code_upper: "RARITY_MAP (py_lower (py_upper s)) = RARITY_MAP (py_lower s)"
proof (cases "\<forall>c\<in>set s. py_ord c \<noteq> 223")
  case True
  then show ?thesis by (simp add: py_lower_upper_plain)
next
  case False
  then obtain c where c: "py_ord c = 223" "c \<in> set s" by auto
  show ?thesis
    using RARITY_MAP_no_s [OF sharp_s_upper [OF c]]
      RARITY_MAP_no_sharp_s [OF c(1) sharp_s_lower [OF c]]
    by simp
qed

text \<open>
  Claim C8. \<open>rarity_code\<close> looks the lower-case form of the rarity text up in the fixed
  table mythic to M, rare to R, uncommon to U, common to C, and gives no code for any other
  text; the case of the letters does not change the result. So "Rare" and "rare" both give
  R, and "special" gives no code and no error.
\<close>
theorem rarity_code_table:
  "rarity_code r =
     (if py_lower (rarity r) = ''mythic'' then Some ''M''
      else if py_lower (rarity r) = ''rare'' then Some ''R''
      else if py_lower (rarity r) = ''uncommon'' then Some ''U''
      else if py_lower (rarity r) = ''common'' then Some ''C''
      else None)
   \<and> rarity_code (r\<lparr>rarity := py_upper (rarity r)\<rparr>) = rarity_code r
   \<and> rarity_code (r\<lparr>rarity := py_lower (rarity r)\<rparr>) = rarity_code r
   \<and> rarity_code \<lparr>name = n, rarity = ''Rare''\<rparr> = Some ''R''
   \<and> rarity_code \<lparr>name = n, rarity = ''rare''\<rparr> = Some ''R''
   \<and> rarity_code \<lparr>name = n, rarity = ''special''\<rparr> = None"
proof -
  have l1: "py_lower ''Rare'' = ''rare''" by code_simp
  have l2: "py_lower ''rare'' = ''rare''" by code_simp
  have l3: "py_lower ''special'' = ''special''" by code_simp
  have t: "RARITY_MAP x =
     (if x = ''mythic'' then Some ''M''
      else if x = ''rare'' then Some ''R''
      else if x = ''uncommon'' then Some ''U''
      else if x = ''common'' then Some ''C''
      else None)" for x
    by (simp add: RARITY_MAP_def)
  have a: "rarity_code r =
     (if py_lower (rarity r) = ''mythic'' then Some ''M''
      else if py_lower (rarity r) = ''rare'' then Some ''R''
      else if py_lower (rarity r) = ''uncommon'' then Some ''U''
      else if py_lower (rarity r) = ''common'' then Some ''C''
      else None)"
    unfolding rarity_code_def by (rule t)
  have b: "rarity_code (r\<lparr>rarity := py_upper (rarity r)\<rparr>) = rarity_code r"
    by (simp add: rarity_code_def rarity_code_upper)
  have c: "rarity_code (r\<lparr>rarity := py_lower (rarity r)\<rparr>) = rarity_code r"
    by (simp add: rarity_code_def py_lower_lower)
  have d: "rarity_code \<lparr>name = n, rarity = ''Rare''\<rparr> = Some ''R''"
    "rarity_code \<lparr>name = n, rarity = ''rare''\<rparr> = Some ''R''"
    "rarity_code \<lparr>name = n, rarity = ''special''\<rparr> = None"
    by (simp_all add: rarity_code_def RARITY_MAP_def l1 l2 l3)
  show ?thesis using a b c d by blast
qed

text \<open>Claim C8 at the rarity text "MyThIc" and its upper-case form.\<close>
theorem rarity_code_table_witness:
  "rarity_code \<lparr>name = ''Appa'', rarity = ''MyThIc''\<rparr> = Some ''M'' \<and>
   rarity_code \<lparr>name = ''Appa'', rarity = ''MYTHIC''\<rparr> = Some ''M''"
proof -
  have l: "py_lower ''MyThIc'' = ''mythic''" by code_simp
  have u: "py_upper ''MyThIc'' = ''MYTHIC''" by code_simp
  show ?thesis
    using rarity_code_table [of "\<lparr>name = ''Appa'', rarity = ''MyThIc''\<rparr>"]
    by (simp add: l u)
qed

section \<open>Reconciliation\<close>

lemma rarity_code_nonempty: "rarity_code r \<noteq> Some []"
  by (simp add: rarity_code_def RARITY_MAP_def)

lemma truthy_rarity_code: "truthy (rarity_code r) = (rarity_code r \<noteq> None)"
  by (simp add: truthy_def rarity_code_nonempty)

lemma reconcile_loop_append:
  "reconcile_loop cards (xs @ ys) u m =
     (case reconcile_loop cards xs u m of (u', m') \<Rightarrow> reconcile_loop cards ys u' m')"
  by (induction cards xs u m rule: reconcile_loop.induct)
     (simp_all add: Let_def split: option.splits)

lemma reconcile_loop_shift:
  "reconcile_loop cards xs (u0 @ u) (m0 @ m) =
     (u0 @ fst (reconcile_loop cards xs u m), m0 @ snd (reconcile_loop cards xs u m))"
proof (induction xs arbitrary: u m)
  case Nil
  show ?case by simp
next
  case (Cons x xs)
  obtain i t where x: "x = (i, t)" by (cases x)
  show ?case
    by (simp add: x Let_def Cons.IH split: option.splits)
qed

lemma reconcile_loop_acc:
  "reconcile_loop cards xs u m =
     (u @ fst (reconcile_loop cards xs [] []), m @ snd (reconcile_loop cards xs [] []))"
  using reconcile_loop_shift [of cards xs u "[]" m "[]"] by simp

lemma reconcile_loop_snoc:
  "reconcile_loop cards (rows @ [(i, t)]) [] [] =
     (case reconcile_loop cards rows [] [] of
        (u, m) \<Rightarrow>
          if py_strip t = [] then (u, m)
          else case cards (py_strip t) of
                 None \<Rightarrow> (u, m @ [t])
               | Some rec \<Rightarrow>
                   (case rarity_code rec of
                      None \<Rightarrow> (u, m @ [t])
                    | Some code \<Rightarrow> (u @ [(i, code)], m)))"
  by (simp add: reconcile_loop_append Let_def truthy_rarity_code split: prod.splits option.splits)

lemma reconcile_loop_concat:
  "reconcile_loop cards (xs @ ys) [] [] =
     (fst (reconcile_loop cards xs [] []) @ fst (reconcile_loop cards ys [] []),
      snd (reconcile_loop cards xs [] []) @ snd (reconcile_loop cards ys [] []))"
proof -
  obtain u m where r: "reconcile_loop cards xs [] [] = (u, m)"
    by (cases "reconcile_loop cards xs [] []")
  show ?thesis
    using reconcile_loop_acc [of cards ys u m] by (simp add: reconcile_loop_append r)
qed

lemma reconcile_single:
  "length (fst (reconcile_loop cards [r] [] [])) + length (snd (reconcile_loop cards [r] [] [])) \<le> 1"
  by (cases r) (simp add: Let_def split: option.splits)

lemma reconcile_subseq:
  "subseq (map fst (fst (reconcile_loop cards rows [] []))) (map fst rows) \<and>
   subseq (snd (reconcile_loop cards rows [] [])) (map snd rows)"
proof (induction rows rule: rev_induct)
  case Nil
  show ?case by simp
next
  case (snoc r rows)
  obtain i t where r: "r = (i, t)" by (cases r)
  show ?case
    using snoc
    by (auto simp: r reconcile_loop_snoc subseq_append' list_emb_append2
        split: prod.splits option.splits)
qed

text \<open>
  Claim C1. The reconciliation loop of \<open>sync_sheet\<close> goes through the rows in input
  order, and a further row at the end changes the result as follows: a row whose trimmed
  text is empty adds nothing; a row whose trimmed text is not in the catalog, or is in it
  with a rarity that has no code, adds its original, untrimmed text at the end of the
  missing names; any other row adds its row index with the code at the end of the updates.
  For the rows (2, "Aang"), (3, ""), (4, "Unknown Card"), (5, "Zuko") and the catalog Aang
  mythic, Zuko common, the updates are (2, "M"), (5, "C") and the missing names are
  "Unknown Card".
\<close>
theorem reconcile_rows:
  "reconcile_loop cards [] [] [] = ([], [])
   \<and> reconcile_loop cards (rows @ [(i, t)]) [] [] =
       (case reconcile_loop cards rows [] [] of
          (u, m) \<Rightarrow>
            if py_strip t = [] then (u, m)
            else case cards (py_strip t) of
                   None \<Rightarrow> (u, m @ [t])
                 | Some rec \<Rightarrow>
                     (case rarity_code rec of
                        None \<Rightarrow> (u, m @ [t])
                      | Some code \<Rightarrow> (u @ [(i, code)], m)))
   \<and> reconcile_loop
         [''Aang'' \<mapsto> \<lparr>name = ''Aang'', rarity = ''mythic''\<rparr>,
          ''Zuko'' \<mapsto> \<lparr>name = ''Zuko'', rarity = ''common''\<rparr>]
         [(2, ''Aang''), (3, []), (4, ''Unknown Card''), (5, ''Zuko'')] [] [] =
       ([(2, ''M''), (5, ''C'')], [''Unknown Card''])"
proof -
  have "reconcile_loop
         [''Aang'' \<mapsto> \<lparr>name = ''Aang'', rarity = ''mythic''\<rparr>,
          ''Zuko'' \<mapsto> \<lparr>name = ''Zuko'', rarity = ''common''\<rparr>]
         [(2, ''Aang''), (3, []), (4, ''Unknown Card''), (5, ''Zuko'')] [] [] =
       ([(2, ''M''), (5, ''C'')], [''Unknown Card''])"
    by code_simp
  then show ?thesis
    using reconcile_loop_snoc [of cards rows i t] by simp
qed

text \<open>
  Claim C1 at a catalog with Aang alone: a row " Aang " is an update found by its trimmed
  text, a row of spaces adds nothing, a row "Momo " is missing under its untrimmed text;
  a row of a no-break space and "Aang" is an update as well, and a row of the next-line
  character U+0085 alone adds nothing.
\<close>
theorem reconcile_rows_witness:
  "reconcile_loop [''Aang'' \<mapsto> \<lparr>name = ''Aang'', rarity = ''Mythic''\<rparr>]
     ([(7, '' Aang ''), (8, ''  '')] @ [(9, ''Momo '')]) [] [] = ([(7, ''M'')], [''Momo ''])
   \<and> reconcile_loop [''Aang'' \<mapsto> \<lparr>name = ''Aang'', rarity = ''Mythic''\<rparr>]
     ([(9, ''Momo '')] @ [(7, '' Aang '')]) [] [] = ([(7, ''M'')], [''Momo ''])
   \<and> reconcile_loop [''Aang'' \<mapsto> \<lparr>name = ''Aang'', rarity = ''Mythic''\<rparr>]
     ([] @ [(2, CHR 0xA0 # ''Aang'')]) [] [] = ([(2, ''M'')], [])
   \<and> reconcile_loop [''Aang'' \<mapsto> \<lparr>name = ''Aang'', rarity = ''Mythic''\<rparr>]
     ([] @ [(3, [CHR 0x85])]) [] [] = ([], [])"
proof -
  let ?c = "[''Aang'' \<mapsto> \<lparr>name = ''Aang'', rarity = ''Mythic''\<rparr>]"
  have r0: "reconcile_loop ?c [] [] [] = ([], [])" by simp
  have r1: "reconcile_loop ?c [(7, '' Aang ''), (8, ''  '')] [] [] = ([(7, ''M'')], [])"
    by code_simp
  have r2: "reconcile_loop ?c [(9, ''Momo '')] [] [] = ([], [''Momo ''])"
    by code_simp
  have s1: "py_strip ''Momo '' = ''Momo''" by code_simp
  have s2: "py_strip '' Aang '' = ''Aang''" by code_simp
  have s3: "py_strip (CHR 0xA0 # ''Aang'') = ''Aang''" by code_simp
  have s4: "py_strip [CHR 0x85] = []" by code_simp
  have c: "rarity_code \<lparr>name = ''Aang'', rarity = ''Mythic''\<rparr> = Some ''M''" by code_simp
  note t = reconcile_rows [THEN conjunct2, THEN conjunct1]
  have a: "reconcile_loop ?c ([(7, '' Aang ''), (8, ''  '')] @ [(9, ''Momo '')]) [] [] =
      ([(7, ''M'')], [''Momo ''])"
    unfolding t r1 s1 by simp
  have b: "reconcile_loop ?c ([(9, ''Momo '')] @ [(7, '' Aang '')]) [] [] =
      ([(7, ''M'')], [''Momo ''])"
    unfolding t r2 s2 by (simp add: c)
  have d: "reconcile_loop ?c ([] @ [(2, CHR 0xA0 # ''Aang'')]) [] [] = ([(2, ''M'')], [])"
    unfolding t r0 s3 by (simp add: c)
  have e: "reconcile_loop ?c ([] @ [(3, [CHR 0x85])]) [] [] = ([], [])"
    unfolding t r0 s4 by simp
  show ?thesis using a b d e by blast
qed

text \<open>
  Claim C6. The result for a row list is the result for its first part followed by the
  result for the rest, in the updates and in the missing names alike, and a single row
  gives at most one entry in the two lists together: so every row has at most one
  outcome, never both, and the outcomes stand in row order. The row indices of the updates
  are a subsequence of the row indices of the input, and the missing names are a
  subsequence of the input texts.
\<close>
theorem reconcile_order:
  "reconcile_loop cards (xs @ ys) [] [] =
     (fst (reconcile_loop cards xs [] []) @ fst (reconcile_loop cards ys [] []),
      snd (reconcile_loop cards xs [] []) @ snd (reconcile_loop cards ys [] []))
   \<and> length (fst (reconcile_loop cards [r] [] [])) +
       length (snd (reconcile_loop cards [r] [] [])) \<le> 1
   \<and> subseq (map fst (fst (reconcile_loop cards xs [] []))) (map fst xs)
   \<and> subseq (snd (reconcile_loop cards xs [] [])) (map snd xs)"
  using reconcile_loop_concat [of cards xs ys] reconcile_single [of cards r]
    reconcile_subseq [of cards xs]
  by simp

text \<open>Claim C6 at four rows, of which the two in the middle are updates.\<close>
theorem reconcile_order_witness:
  "reconcile_loop [''Aang'' \<mapsto> \<lparr>name = ''Aang'', rarity = ''rare''\<rparr>]
     ([(2, ''Toph''), (3, ''Aang'')] @ [(4, ''Aang''), (5, ''Iroh'')]) [] [] =
     ([(3, ''R''), (4, ''R'')], [''Toph'', ''Iroh''])
   \<and> length (fst (reconcile_loop [''Aang'' \<mapsto> \<lparr>name = ''Aang'', rarity = ''rare''\<rparr>]
                    [(3, ''Aang'')] [] [])) +
     length (snd (reconcile_loop [''Aang'' \<mapsto> \<lparr>name = ''Aang'', rarity = ''rare''\<rparr>]
                    [(3, ''Aang'')] [] [])) \<le> 1"
proof -
  let ?c = "[''Aang'' \<mapsto> \<lparr>name = ''Aang'', rarity = ''rare''\<rparr>]"
  have r1: "reconcile_loop ?c [(2, ''Toph''), (3, ''Aang'')] [] [] = ([(3, ''R'')], [''Toph''])"
    by code_simp
  have r2: "reconcile_loop ?c [(4, ''Aang''), (5, ''Iroh'')] [] [] = ([(4, ''R'')], [''Iroh''])"
    by code_simp
  have r3: "reconcile_loop ?c [(3, ''Aang'')] [] [] = ([(3, ''R'')], [])"
    by code_simp
  note t = reconcile_order [of ?c "[(2, ''Toph''), (3, ''Aang'')]"
        "[(4, ''Aang''), (5, ''Iroh'')]" "(3, ''Aang'')"]
  have a: "reconcile_loop ?c ([(2, ''Toph''), (3, ''Aang'')] @ [(4, ''Aang''), (5, ''Iroh'')]) [] [] =
     ([(3, ''R''), (4, ''R'')], [''Toph'', ''Iroh''])"
    unfolding t [THEN conjunct1] r1 r2 by simp
  show ?thesis
    using a t [THEN conjunct2, THEN conjunct1] by blast
qed

section \<open>The dry run\<close>

lemma index_loop_total: "0 \<le> n \<Longrightarrow> \<exists>r. index_loop n chars = Some r"
proof (induction "nat n" arbitrary: n chars rule: less_induct)
  case less
  show ?case
  proof (cases "n = 0")
    case True
    then show ?thesis by (subst index_loop.simps) simp
  next
    case False
    with less.prems have pos: "0 < n" by simp
    then have "0 \<le> (n - 1) div 26" and "nat ((n - 1) div 26) < nat n"
      by (simp_all add: zdiv_mono1 nat_less_iff div_less_iff_less_mult)
    then obtain r where "index_loop ((n - 1) div 26) (chars @ [py_chr (65 + (n - 1) mod 26)]) = Some r"
      using less.hyps by blast
    then show ?thesis using False by (subst index_loop.simps) simp
  qed
qed

lemma index_to_column_total: "1 \<le> n \<Longrightarrow> \<exists>s. index_to_column n = Some (Inr s)"
  using index_loop_total [of n "[]"] by (auto simp: index_to_column_def)

lemma column_value_pos:
  "\<forall>p\<in>set ps. point_AZ p \<Longrightarrow> 1 \<le> i \<Longrightarrow>
     1 \<le> foldl (\<lambda>index p. index * 26 + (p - 64)) i ps"
proof (induction ps arbitrary: i)
  case Nil
  then show ?case by simp
next
  case (Cons p ps)
  from Cons.prems have "1 \<le> i * 26 + (p - 64)" by (simp add: point_AZ_def ords)
  with Cons show ?case by simp
qed

lemma column_to_index_pos:
  assumes "column_to_index c = Inr i"
  shows "1 \<le> i"
proof -
  let ?u = "str_upper (py_strip c)"
  have ne: "?u \<noteq> []" using assms by (auto simp: column_to_index_def Let_def)
  have az: "\<forall>p\<in>set ?u. point_AZ p"
  proof (rule ccontr)
    assume "\<not> ?thesis"
    then have "\<exists>p\<in>set ?u. \<not> point_AZ p" by simp
    from column_loop_bad [OF this] show False
      using assms ne by (simp add: column_to_index_def Let_def)
  qed
  obtain p ps where u: "?u = p # ps" using ne by (cases ?u) auto
  have "1 \<le> foldl (\<lambda>index p. index * 26 + (p - 64)) (0 * 26 + (p - 64)) ps"
    using az by (intro column_value_pos) (simp_all add: u point_AZ_def ords)
  moreover have "column_to_index c = Inr (foldl (\<lambda>index p. index * 26 + (p - 64)) 0 ?u)"
    using ne az by (simp add: column_to_index_def Let_def column_loop_ok)
  ultimately show ?thesis using assms by (simp add: u)
qed

lemma read_sheet_rows_events:
  "read_sheet_rows srv sid ws col fr = (r, l) \<Longrightarrow>
     filter printed l = [] \<and> list_all (\<lambda>ev. \<not> sheet_write ev) l"
  by (auto simp: read_sheet_rows_def Let_def split: if_splits sum.splits)

lemma preview_events:
  "filter printed (map preview us) = map preview us \<and>
   list_all (\<lambda>ev. \<not> sheet_write ev) (map preview us)"
  by (induction us) (simp_all add: preview_def)

lemma sync_sheet_dry:
  assumes "sync_sheet sid ws col fr cards srv True = Some (out, log)"
  shows "list_all (\<lambda>ev. \<not> sheet_write ev) log"
    and "out = Inr res \<Longrightarrow>
      \<exists>rows l. read_sheet_rows srv sid ws col fr = (Inr rows, l) \<and>
        log = l @ map preview (fst (reconcile_loop cards rows [] [])) \<and>
        filter printed log = map preview (fst (reconcile_loop cards rows [] [])) \<and>
        updated res = int (length (filter printed log))"
proof -
  obtain r l where rd: "read_sheet_rows srv sid ws col fr = (r, l)"
    by (cases "read_sheet_rows srv sid ws col fr")
  note ev = read_sheet_rows_events [OF rd]
  show "list_all (\<lambda>ev. \<not> sheet_write ev) log"
    using assms ev preview_events
    by (auto simp: sync_sheet_def rd split: sum.splits option.splits prod.splits)
  show "\<exists>rows l. read_sheet_rows srv sid ws col fr = (Inr rows, l) \<and>
        log = l @ map preview (fst (reconcile_loop cards rows [] [])) \<and>
        filter printed log = map preview (fst (reconcile_loop cards rows [] [])) \<and>
        updated res = int (length (filter printed log))" if "out = Inr res"
    using assms ev preview_events that
    by (auto simp: sync_sheet_def rd split: sum.splits option.splits prod.splits)
qed

lemma sync_sheet_dry_returns:
  assumes "1 \<le> fr" "get_reply srv = Inr vals" "column_to_index col = Inr i"
  shows "\<exists>res log. sync_sheet sid ws col fr cards srv True = Some (Inr res, log)"
proof -
  have "1 \<le> i + 1" using column_to_index_pos [OF assms(3)] by simp
  from index_to_column_total [OF this] obtain s where "index_to_column (i + 1) = Some (Inr s)" ..
  then show ?thesis
    using assms by (simp add: sync_sheet_def read_sheet_rows_def Let_def split: prod.splits)
qed

text \<open>
  Claim C9. A dry run of \<open>sync_sheet\<close> makes no write call to the spreadsheet service,
  whatever its outcome; when it succeeds, its events are those of the read followed by one
  preview line for each computed update, in order, so the number of printed lines is the
  count of updates it reports. A dry run with a start row of at least 1, a read that
  succeeds and a valid column does succeed.
\<close>
theorem dry_run_preview:
  "(sync_sheet sid ws col fr cards srv True = Some (out, log) \<longrightarrow>
      list_all (\<lambda>ev. \<not> sheet_write ev) log \<and>
      (\<forall>res. out = Inr res \<longrightarrow>
         (\<exists>rows l. read_sheet_rows srv sid ws col fr = (Inr rows, l) \<and>
            log = l @ map preview (fst (reconcile_loop cards rows [] [])) \<and>
            filter printed log = map preview (fst (reconcile_loop cards rows [] [])) \<and>
            updated res = int (length (filter printed log)))))
   \<and> (1 \<le> fr \<and> get_reply srv = Inr vals \<and> column_to_index col = Inr i \<longrightarrow>
        (\<exists>res log. sync_sheet sid ws col fr cards srv True = Some (Inr res, log)))"
  using sync_sheet_dry [of sid ws col fr cards srv out log] sync_sheet_dry_returns [of fr srv vals col i]
  by blast

text \<open>Claim C9 at a sheet of three rows, the second empty: one read, two preview lines.\<close>
theorem dry_run_preview_witness:
  "sync_sheet ''sid'' ''Sheet1'' ''A'' 2
      [''Aang'' \<mapsto> \<lparr>name = ''Aang'', rarity = ''mythic''\<rparr>,
       ''Zuko'' \<mapsto> \<lparr>name = ''Zuko'', rarity = ''common''\<rparr>]
      \<lparr>create_reply = Inr ''sid'', get_reply = Inr [[''Aang''], [], [''Zuko '']],
       update_reply = None\<rparr> True =
     Some (Inr \<lparr>updated = 2, missing_cards = []\<rparr>,
           [SheetsGet ''sid'' ''Sheet1!A2:A'', Print ''Would update row 2 to M'',
            Print ''Would update row 4 to C''])
   \<and> list_all (\<lambda>ev. \<not> sheet_write ev)
         [SheetsGet ''sid'' ''Sheet1!A2:A'', Print ''Would update row 2 to M'',
          Print ''Would update row 4 to C'']
   \<and> updated \<lparr>updated = 2, missing_cards = []\<rparr> =
       int (length (filter printed
         [SheetsGet ''sid'' ''Sheet1!A2:A'', Print ''Would update row 2 to M'',
          Print ''Would update row 4 to C'']))"
proof -
  have run: "sync_sheet ''sid'' ''Sheet1'' ''A'' 2
      [''Aang'' \<mapsto> \<lparr>name = ''Aang'', rarity = ''mythic''\<rparr>,
       ''Zuko'' \<mapsto> \<lparr>name = ''Zuko'', rarity = ''common''\<rparr>]
      \<lparr>create_reply = Inr ''sid'', get_reply = Inr [[''Aang''], [], [''Zuko '']],
       update_reply = None\<rparr> True =
     Some (Inr \<lparr>updated = 2, missing_cards = []\<rparr>,
           [SheetsGet ''sid'' ''Sheet1!A2:A'', Print ''Would update row 2 to M'',
            Print ''Would update row 4 to C''])"
    by code_simp
  from dry_run_preview [THEN conjunct1, rule_format, OF run]
  show ?thesis using run by blast
qed

section \<open>The catalog fetch\<close>


lemma emit_emit: "emit xs (emit ys r) = emit (xs @ ys) r"
  by (cases r) auto

lemma fetch_loop_stop:
  "\<not> truthy url \<Longrightarrow> fetch_loop rs url params retries cards = Some (Inr cards, [])"
  by (cases rs) simp_all


lemma fetch_loop_ok:
  assumes "truthy url" "ok r"
  shows "fetch_loop (Response r # rest) url params retries cards =
     emit [HttpGet (the url) (if url = Some SCRYFALL_SEARCH_ENDPOINT then params else None)]
       (if has_more (json r)
        then fetch_loop rest (next_page (json r)) None 0 (add_cards (data (json r)) cards)
        else Some (Inr (add_cards (data (json r)) cards), []))"
proof -
  have 1: "status_code r \<noteq> 429" using assms(2) by (auto simp: ok_def)
  have 2: "(500 \<le> status_code r \<and> status_code r < 600) = False"
    using assms(2) by (auto simp: ok_def)
  show ?thesis
    using assms by (simp add: 1 2 Let_def)
qed


lemma add_cards_append: "add_cards (xs @ ys) cards = add_cards ys (add_cards xs cards)"
  by (induction xs arbitrary: cards) (simp_all add: Let_def)

lemma fetch_loop_last:
  assumes "truthy url" "ok p" "\<not> continues p"
  shows "fetch_loop (Response p # extra) url params retries cards =
     Some (Inr (add_cards (data (json p)) cards),
           [HttpGet (the url) (if url = Some SCRYFALL_SEARCH_ENDPOINT then params else None)])"
  using assms(3)
  by (auto simp: fetch_loop_ok [OF assms(1,2)] continues_def fetch_loop_stop
      simp del: fetch_loop.simps)


lemma fetch_loop_pages:
  "truthy url \<Longrightarrow> \<forall>pg\<in>set ps. ok pg \<and> continues pg \<Longrightarrow> ok p \<Longrightarrow> \<not> continues p \<Longrightarrow>
     fetch_loop (map Response ps @ Response p # extra) url params retries cards =
       Some (Inr (add_cards (concat (map (\<lambda>pg. data (json pg)) (ps @ [p]))) cards),
             HttpGet (the url) (if url = Some SCRYFALL_SEARCH_ENDPOINT then params else None)
               # map (\<lambda>pg. HttpGet (the (next_page (json pg))) None) ps)"
proof (induction ps arbitrary: url params retries cards)
  case Nil
  then show ?case
    using fetch_loop_last [of url p extra params retries cards] by simp
next
  case (Cons pg ps)
  from Cons.prems(2) have pg: "ok pg" "continues pg"
    and rest: "\<forall>pg\<in>set ps. ok pg \<and> continues pg" by simp_all
  from pg(2) have nx: "truthy (next_page (json pg))" and hm: "has_more (json pg)"
    by (simp_all add: continues_def)
  note ih = Cons.IH [OF nx rest Cons.prems(3,4), of None 0 "add_cards (data (json pg)) cards"]
  have "fetch_loop (map Response (pg # ps) @ Response p # extra) url params retries cards =
      emit [HttpGet (the url) (if url = Some SCRYFALL_SEARCH_ENDPOINT then params else None)]
        (fetch_loop (map Response ps @ Response p # extra) (next_page (json pg)) None 0
           (add_cards (data (json pg)) cards))"
    using fetch_loop_ok [OF Cons.prems(1) pg(1)] hm by (simp del: fetch_loop.simps)
  then show ?case
    unfolding ih by (simp add: add_cards_append)
qed

lemma truthy_endpoint: "truthy (Some SCRYFALL_SEARCH_ENDPOINT)"
  by (simp add: truthy_def SCRYFALL_SEARCH_ENDPOINT_def)

lemma add_cards_snoc:
  "add_cards (recs @ [rec]) cards =
     (let nm = py_strip (case json_name rec of None \<Rightarrow> [] | Some n \<Rightarrow> n)
      in if nm = [] \<or> \<not> truthy (json_rarity rec) then add_cards recs cards
         else (add_cards recs cards)(nm \<mapsto> \<lparr>name = nm, rarity = the (json_rarity rec)\<rparr>))"
  by (simp add: add_cards_append Let_def)

lemma py_strip_Nil: "py_strip [] = []"
  by (simp add: py_strip_def)




text \<open>
  Claim C5. On successful pages of which all but the last go on, the fetch asks for the
  search endpoint and then for the next page each page names, and returns the records of
  all pages put into one mapping in page order. A further record replaces the entry under
  its trimmed name, so a later record overwrites an earlier one of the same name; a record
  whose name is absent or empty, or whose rarity is absent, is skipped and the fetch goes
  on.
\<close>
theorem fetch_pages:
  "((\<forall>pg\<in>set ps. ok pg \<and> continues pg) \<and> ok p \<and> \<not> continues p \<longrightarrow>
      fetch_scryfall_cards sc (map Response (ps @ [p]) @ extra) =
        Some (Inr (add_cards (concat (map (\<lambda>pg. data (json pg)) (ps @ [p]))) Map.empty),
              HttpGet SCRYFALL_SEARCH_ENDPOINT (Some (''set:'' @ sc))
                # map (\<lambda>pg. HttpGet (the (next_page (json pg))) None) ps))
   \<and> add_cards (recs @ [rec]) cards =
       (let nm = py_strip (case json_name rec of None \<Rightarrow> [] | Some n \<Rightarrow> n)
        in if nm = [] \<or> \<not> truthy (json_rarity rec) then add_cards recs cards
           else (add_cards recs cards)(nm \<mapsto> \<lparr>name = nm, rarity = the (json_rarity rec)\<rparr>))
   \<and> (json_name rec = None \<or> json_name rec = Some [] \<or> json_rarity rec = None \<longrightarrow>
        add_cards (recs @ [rec]) cards = add_cards recs cards)"
proof -
  have "fetch_scryfall_cards sc (map Response (ps @ [p]) @ extra) =
        Some (Inr (add_cards (concat (map (\<lambda>pg. data (json pg)) (ps @ [p]))) Map.empty),
              HttpGet SCRYFALL_SEARCH_ENDPOINT (Some (''set:'' @ sc))
                # map (\<lambda>pg. HttpGet (the (next_page (json pg))) None) ps)"
    if a: "\<forall>pg\<in>set ps. ok pg \<and> continues pg" "ok p" "\<not> continues p"
    using fetch_loop_pages [OF truthy_endpoint a, of extra "Some (''set:'' @ sc)" 0 Map.empty]
    by (simp add: fetch_scryfall_cards_def del: fetch_loop.simps)
  moreover have "add_cards (recs @ [rec]) cards = add_cards recs cards"
    if "json_name rec = None \<or> json_name rec = Some [] \<or> json_rarity rec = None"
    using that by (auto simp: add_cards_snoc py_strip_Nil truthy_def)
  ultimately show ?thesis
    using add_cards_snoc [of recs rec cards] by blast
qed


text \<open>
  Claim C5 at two pages: "Aang" is rare on the first and mythic on the second, where its
  name ends in a no-break space that is trimmed; a record without a name, a record whose
  name is a no-break space alone and a record without a rarity are skipped.
\<close>
theorem fetch_pages_witness:
  "\<exists>cards.
      fetch_scryfall_cards ''tla''
        (map Response
           ([page_reply [\<lparr>json_name = Some ''Aang'', json_rarity = Some ''rare''\<rparr>,
                         \<lparr>json_name = Some [], json_rarity = Some ''common''\<rparr>,
                         \<lparr>json_name = Some [CHR 0xA0], json_rarity = Some ''common''\<rparr>] True
               (Some ''https://api.scryfall.com/cards/search?page=2'')]
            @ [page_reply [\<lparr>json_name = Some (''Aang'' @ [CHR 0xA0]),
                             json_rarity = Some ''mythic''\<rparr>,
                           \<lparr>json_name = Some ''Zuko'', json_rarity = None\<rparr>] False None])
         @ []) =
        Some (Inr cards,
              [HttpGet SCRYFALL_SEARCH_ENDPOINT (Some ''set:tla''),
               HttpGet ''https://api.scryfall.com/cards/search?page=2'' None])
      \<and> cards ''Aang'' = Some \<lparr>name = ''Aang'', rarity = ''mythic''\<rparr>
      \<and> cards ''Zuko'' = None \<and> cards [] = None \<and> cards [CHR 0xA0] = None
      \<and> cards (''Aang'' @ [CHR 0xA0]) = None"
proof -
  let ?p1 = "page_reply [\<lparr>json_name = Some ''Aang'', json_rarity = Some ''rare''\<rparr>,
                         \<lparr>json_name = Some [], json_rarity = Some ''common''\<rparr>,
                         \<lparr>json_name = Some [CHR 0xA0], json_rarity = Some ''common''\<rparr>] True
               (Some ''https://api.scryfall.com/cards/search?page=2'')"
  let ?p2 = "page_reply [\<lparr>json_name = Some (''Aang'' @ [CHR 0xA0]),
                             json_rarity = Some ''mythic''\<rparr>,
                           \<lparr>json_name = Some ''Zuko'', json_rarity = None\<rparr>] False None"
  have h: "(\<forall>pg\<in>set [?p1]. ok pg \<and> continues pg) \<and> ok ?p2 \<and> \<not> continues ?p2"
    by (simp add: ok_def continues_def page_reply_def truthy_def)
  have s1: "py_strip ''Aang'' = ''Aang''" by code_simp
  have s2: "py_strip (''Aang'' @ [CHR 0xA0]) = ''Aang''" by code_simp
  have s3: "py_strip ''Zuko'' = ''Zuko''" by code_simp
  have s4: "py_strip [CHR 0xA0] = []" by code_simp
  have c: "add_cards (concat (map (\<lambda>pg. data (json pg)) ([?p1] @ [?p2]))) Map.empty =
      [''Aang'' \<mapsto> \<lparr>name = ''Aang'', rarity = ''mythic''\<rparr>]"
    using s2 by (simp add: page_reply_def s1 s3 s4 py_strip_Nil truthy_def Let_def)
  have n: "map (\<lambda>pg. HttpGet (the (next_page (json pg))) None) [?p1] =
      [HttpGet ''https://api.scryfall.com/cards/search?page=2'' None]"
    by (simp add: page_reply_def)
  note t = fetch_pages [THEN conjunct1, rule_format, OF h, of "''tla''" "[]"]
  have "fetch_scryfall_cards ''tla'' (map Response ([?p1] @ [?p2]) @ []) =
      Some (Inr [''Aang'' \<mapsto> \<lparr>name = ''Aang'', rarity = ''mythic''\<rparr>],
            [HttpGet SCRYFALL_SEARCH_ENDPOINT (Some ''set:tla''),
             HttpGet ''https://api.scryfall.com/cards/search?page=2'' None])"
    using t unfolding c n by simp
  moreover have "[''Aang'' \<mapsto> \<lparr>name = ''Aang'', rarity = ''mythic''\<rparr>] ''Aang'' =
      Some \<lparr>name = ''Aang'', rarity = ''mythic''\<rparr>" by simp
  moreover have "[''Aang'' \<mapsto> \<lparr>name = ''Aang'', rarity = ''mythic''\<rparr>] ''Zuko'' = None" by simp
  moreover have "[''Aang'' \<mapsto> \<lparr>name = ''Aang'', rarity = ''mythic''\<rparr>] [] = None" by simp
  moreover have "[''Aang'' \<mapsto> \<lparr>name = ''Aang'', rarity = ''mythic''\<rparr>] [CHR 0xA0] = None"
    by simp
  moreover have "[''Aang'' \<mapsto> \<lparr>name = ''Aang'', rarity = ''mythic''\<rparr>] (''Aang'' @ [CHR 0xA0]) = None"
    by simp
  ultimately show ?thesis by blast
qed

section \<open>Validation in a run\<close>

lemma emit_Some: "emit evs x = Some (r, l) \<longleftrightarrow> (\<exists>l'. x = Some (r, l') \<and> l = evs @ l')"
  by (cases x) auto

lemma off_sheet_simps: "off_sheet (HttpGet x y)" "off_sheet (Sleep n)"
  by (simp_all add: off_sheet_def)

lemma time_sleep_Inr:
  "time_sleep secs = Inr evs \<longleftrightarrow> evs = [Sleep secs] \<and> 0 \<le> secs \<and> secs \<le> 9223372036"
  by (auto simp: time_sleep_def)

lemma fetch_loop_off_sheet:
  "fetch_loop rs url params retries cards = Some (r, l) \<Longrightarrow> list_all off_sheet l"
proof (induction rs arbitrary: url params retries cards r l)
  case Nil
  then show ?case by (simp split: if_splits)
next
  case (Cons reply rs)
  show ?case
  proof (cases "truthy url")
    case False
    with Cons.prems show ?thesis by simp
  next
    case True
    show ?thesis
      using Cons.prems True
      by (auto simp: Let_def emit_Some time_sleep_Inr off_sheet_simps dest: Cons.IH
          split: reply.splits if_splits sum.splits)
  qed
qed

lemma resolve_sheet_off_sheet:
  "resolve_sheet a srv = (r, l) \<Longrightarrow> list_all off_sheet l"
  by (auto simp: resolve_sheet_def create_spreadsheet_def off_sheet_def
      split: option.splits sum.splits prod.splits if_splits)

lemma report_off_sheet: "fst (report exc) \<noteq> Inr 0 \<and> list_all off_sheet (snd (report exc))"
  by (cases exc) (simp_all add: off_sheet_def)

lemma credential_report_off_sheet:
  "credential_report exc = (out, log) \<Longrightarrow> out \<noteq> Inr 0 \<and> list_all off_sheet log"
  by (cases exc) (auto simp: off_sheet_def)

lemma sync_sheet_bad_row:
  "fr < 1 \<Longrightarrow> sync_sheet sid ws col fr cards srv dry =
     Some (Inl (SheetSyncError (points_of ''start_row must be >= 1'')), [])"
  by (simp add: sync_sheet_def read_sheet_rows_def)

lemma sync_sheet_bad_column:
  "1 \<le> fr \<Longrightarrow> column_to_index col = Inl err \<Longrightarrow>
     sync_sheet sid ws col fr cards srv dry =
       (case get_reply srv of
          Inl exc \<Rightarrow> Some (Inl (SheetSyncError (points_of (''Failed to read sheet values: '' @ exc))),
                           [SheetsGet sid (ws @ ''!'' @ col @ py_str fr @ '':'' @ col)])
        | Inr vals \<Rightarrow> Some (Inl err, [SheetsGet sid (ws @ ''!'' @ col @ py_str fr @ '':'' @ col)]))"
  by (simp add: sync_sheet_def read_sheet_rows_def Let_def split: sum.splits)

lemma main_reaches_sync:
  assumes "credentials e = Inr u" "resolve_sheet a (sheets e) = (Inr sid, l0)"
    "fetch_scryfall_cards (set_code a) (catalog e) = Some (Inr cards, l1)"
  shows "main a e =
     emit (l0 @ l1)
       (case sync_sheet sid (worksheet a) (column a) (start_row a) cards (sheets e) (dry_run a) of
          None \<Rightarrow> None
        | Some (Inl exc, l2) \<Rightarrow> Some (fst (report exc), l2 @ snd (report exc))
        | Some (Inr result, l2) \<Rightarrow>
            Some (Inr 0, l2 @ report_missing result
                    @ [Print (''Updated '' @ py_str (updated result) @ '' rows.'')]))"
  using assms by (simp add: main_def emit_emit)


text \<open>
  Claim C2 as stated says that an invalid start row or column fails before any network
  call. Run without arguments but with start row 0, \<open>main\<close> creates a spreadsheet and
  fetches the catalog before it reports the start row; with an empty column it also reads
  the spreadsheet before it reports the column.
\<close>
theorem main_network_counterexample:
  "start_row (default_args\<lparr>start_row := 0\<rparr>) < 1
   \<and> main (default_args\<lparr>start_row := 0\<rparr>)
        \<lparr>credentials = Inr (),
         sheets = \<lparr>create_reply = Inr ''sheet1'', get_reply = Inr [], update_reply = None\<rparr>,
         catalog = [Response (page_reply [] False None)]\<rparr> =
       Some (Inr 1,
             [SheetsCreate ''The Last Airbender Sync'',
              Print ''Created spreadsheet: https://docs.google.com/spreadsheets/d/sheet1'',
              HttpGet SCRYFALL_SEARCH_ENDPOINT (Some ''set:tla''),
              PrintErr (points_of ''start_row must be >= 1'')])
   \<and> network_call (SheetsCreate ''The Last Airbender Sync'')
   \<and> network_call (HttpGet SCRYFALL_SEARCH_ENDPOINT (Some ''set:tla''))
   \<and> column (default_args\<lparr>column := []\<rparr>) = []
   \<and> main (default_args\<lparr>column := []\<rparr>)
        \<lparr>credentials = Inr (),
         sheets = \<lparr>create_reply = Inr ''sheet1'', get_reply = Inr [], update_reply = None\<rparr>,
         catalog = [Response (page_reply [] False None)]\<rparr> =
       Some (Inr 1,
             [SheetsCreate ''The Last Airbender Sync'',
              Print ''Created spreadsheet: https://docs.google.com/spreadsheets/d/sheet1'',
              HttpGet SCRYFALL_SEARCH_ENDPOINT (Some ''set:tla''),
              SheetsGet ''sheet1'' ''Sheet1!2:'',
              PrintErr (points_of ''Column reference cannot be empty.'')])
   \<and> network_call (SheetsGet ''sheet1'' ''Sheet1!2:'')"
proof -
  have "main (default_args\<lparr>start_row := 0\<rparr>)
        \<lparr>credentials = Inr (),
         sheets = \<lparr>create_reply = Inr ''sheet1'', get_reply = Inr [], update_reply = None\<rparr>,
         catalog = [Response (page_reply [] False None)]\<rparr> =
       Some (Inr 1,
             [SheetsCreate ''The Last Airbender Sync'',
              Print ''Created spreadsheet: https://docs.google.com/spreadsheets/d/sheet1'',
              HttpGet SCRYFALL_SEARCH_ENDPOINT (Some ''set:tla''),
              PrintErr (points_of ''start_row must be >= 1'')])"
    by code_simp
  moreover have "main (default_args\<lparr>column := []\<rparr>)
        \<lparr>credentials = Inr (),
         sheets = \<lparr>create_reply = Inr ''sheet1'', get_reply = Inr [], update_reply = None\<rparr>,
         catalog = [Response (page_reply [] False None)]\<rparr> =
       Some (Inr 1,
             [SheetsCreate ''The Last Airbender Sync'',
              Print ''Created spreadsheet: https://docs.google.com/spreadsheets/d/sheet1'',
              HttpGet SCRYFALL_SEARCH_ENDPOINT (Some ''set:tla''),
              SheetsGet ''sheet1'' ''Sheet1!2:'',
              PrintErr (points_of ''Column reference cannot be empty.'')])"
    by code_simp
  ultimately show ?thesis by (simp add: default_args_def)
qed

text \<open>
  Claim C2, amended. Take a run whose credentials load, whose spreadsheet id is settled
  and whose catalog fetch succeeds, so that the events of those steps have happened. With a
  start row below 1 it ends with exit status 1 and the message that the start row must be
  at least 1, right after those events: before any read of the spreadsheet. With a start
  row of at least 1 and a column that \<open>column_to_index\<close> rejects, such as an empty one,
  it reads the spreadsheet and then ends with exit status 1: with the message of the
  column error when the read succeeds, with the message of the failed read when the read
  fails. Whatever the other steps do, a run with such a start row or column does not end
  with status 0 and makes no write call, and with such a start row it makes no read call.
\<close>
theorem main_validation:
  "(credentials e = Inr u \<and> resolve_sheet a (sheets e) = (Inr sid, l0) \<and>
    fetch_scryfall_cards (set_code a) (catalog e) = Some (Inr cards, l1) \<longrightarrow>
      (start_row a < 1 \<longrightarrow>
         main a e =
           Some (Inr 1, l0 @ l1 @ [PrintErr (points_of ''start_row must be >= 1'')]))
      \<and> (1 \<le> start_row a \<and> column_to_index (column a) = Inl (SheetSyncError m) \<longrightarrow>
           (get_reply (sheets e) = Inr vals \<longrightarrow>
              main a e =
                Some (Inr 1,
                      l0 @ l1 @ [SheetsGet sid (worksheet a @ ''!'' @ column a
                                                  @ py_str (start_row a) @ '':'' @ column a),
                                 PrintErr m]))
           \<and> (get_reply (sheets e) = Inl exc \<longrightarrow>
              main a e =
                Some (Inr 1,
                      l0 @ l1 @ [SheetsGet sid (worksheet a @ ''!'' @ column a
                                                  @ py_str (start_row a) @ '':'' @ column a),
                                 PrintErr (points_of (''Failed to read sheet values: ''
                                                        @ exc))]))))
   \<and> ((start_row a < 1 \<or> column_to_index (column a) = Inl err) \<and>
       main a e = Some (out, log) \<longrightarrow>
         out \<noteq> Inr 0 \<and> list_all (\<lambda>ev. \<not> sheet_write ev) log \<and>
         (start_row a < 1 \<longrightarrow> list_all (\<lambda>ev. \<not> sheet_read ev) log))"
proof -
  have 1: "main a e = Some (Inr 1, l0 @ l1 @ [PrintErr (points_of ''start_row must be >= 1'')])"
    if "credentials e = Inr u" "resolve_sheet a (sheets e) = (Inr sid, l0)"
      "fetch_scryfall_cards (set_code a) (catalog e) = Some (Inr cards, l1)" "start_row a < 1"
    using that by (simp add: main_reaches_sync sync_sheet_bad_row)
  have 2: "main a e =
           Some (Inr 1,
                 l0 @ l1 @ [SheetsGet sid (worksheet a @ ''!'' @ column a
                                             @ py_str (start_row a) @ '':'' @ column a),
                            PrintErr m])"
    if "credentials e = Inr u" "resolve_sheet a (sheets e) = (Inr sid, l0)"
      "fetch_scryfall_cards (set_code a) (catalog e) = Some (Inr cards, l1)"
      "1 \<le> start_row a" "get_reply (sheets e) = Inr vals"
      "column_to_index (column a) = Inl (SheetSyncError m)"
    using that by (simp add: main_reaches_sync sync_sheet_bad_column)
  have 7: "main a e =
           Some (Inr 1,
                 l0 @ l1 @ [SheetsGet sid (worksheet a @ ''!'' @ column a
                                             @ py_str (start_row a) @ '':'' @ column a),
                            PrintErr (points_of (''Failed to read sheet values: '' @ exc))])"
    if "credentials e = Inr u" "resolve_sheet a (sheets e) = (Inr sid, l0)"
      "fetch_scryfall_cards (set_code a) (catalog e) = Some (Inr cards, l1)"
      "1 \<le> start_row a" "get_reply (sheets e) = Inl exc"
      "column_to_index (column a) = Inl (SheetSyncError m)"
    using that by (simp add: main_reaches_sync sync_sheet_bad_column)
  have 3: "out \<noteq> Inr 0 \<and> list_all off_sheet log"
    if "start_row a < 1" "main a e = Some (out, log)"
    using that report_off_sheet
    by (auto simp: main_def emit_Some sync_sheet_bad_row off_sheet_def
        dest!: fetch_loop_off_sheet resolve_sheet_off_sheet credential_report_off_sheet
        simp: fetch_scryfall_cards_def
        split: sum.splits prod.splits option.splits)
  have 4: "out \<noteq> Inr 0 \<and> list_all (\<lambda>ev. \<not> sheet_write ev) log"
    if "1 \<le> start_row a" "column_to_index (column a) = Inl err" "main a e = Some (out, log)"
    using that report_off_sheet
    by (auto simp: main_def emit_Some sync_sheet_bad_column off_sheet_def list_all_iff
        dest!: fetch_loop_off_sheet resolve_sheet_off_sheet credential_report_off_sheet
        simp: fetch_scryfall_cards_def
        split: sum.splits prod.splits option.splits)
  have 5: "list_all (\<lambda>ev. \<not> sheet_write ev) log \<and> list_all (\<lambda>ev. \<not> sheet_read ev) log"
    if "list_all off_sheet log" for log
    using that by (simp add: off_sheet_def list_all_iff)
  have 6: "out \<noteq> Inr 0 \<and> list_all (\<lambda>ev. \<not> sheet_write ev) log \<and>
         (start_row a < 1 \<longrightarrow> list_all (\<lambda>ev. \<not> sheet_read ev) log)"
    if h: "start_row a < 1 \<or> column_to_index (column a) = Inl err" "main a e = Some (out, log)"
  proof (cases "start_row a < 1")
    case True
    from 3 [OF True h(2)] 5 show ?thesis by blast
  next
    case False
    then have "1 \<le> start_row a" "column_to_index (column a) = Inl err" using h(1) by simp_all
    from 4 [OF this h(2)] False show ?thesis by blast
  qed
  show ?thesis
    using 1 2 7 6 by blast
qed

text \<open>
  Claim C2, amended, at a sheet URL with the id abc-1\_2: with start row -1 the run fails
  after the catalog request alone; with column "A1" it fails after the read as well, with
  the column error when the read succeeds and with the read error when it fails.
\<close>
theorem main_validation_witness:
  "main (default_args\<lparr>sheet_url := Some ''https://docs.google.com/spreadsheets/d/abc-1_2/edit'',
                          start_row := - 1\<rparr>)
        \<lparr>credentials = Inr (),
         sheets = \<lparr>create_reply = Inl ''403'', get_reply = Inr [[''Aang'']], update_reply = None\<rparr>,
         catalog = [Response (page_reply [] False None)]\<rparr> =
     Some (Inr 1, [HttpGet SCRYFALL_SEARCH_ENDPOINT (Some ''set:tla''),
                   PrintErr (points_of ''start_row must be >= 1'')])
   \<and> main (default_args\<lparr>sheet_url := Some ''https://docs.google.com/spreadsheets/d/abc-1_2/edit'',
                            column := ''A1''\<rparr>)
        \<lparr>credentials = Inr (),
         sheets = \<lparr>create_reply = Inl ''403'', get_reply = Inr [[''Aang'']], update_reply = None\<rparr>,
         catalog = [Response (page_reply [] False None)]\<rparr> =
     Some (Inr 1, [HttpGet SCRYFALL_SEARCH_ENDPOINT (Some ''set:tla''),
                   SheetsGet ''abc-1_2'' ''Sheet1!A12:A1'',
                   PrintErr (points_of ''Invalid column reference: A1'')])
   \<and> main (default_args\<lparr>sheet_url := Some ''https://docs.google.com/spreadsheets/d/abc-1_2/edit'',
                            column := ''A1''\<rparr>)
        \<lparr>credentials = Inr (),
         sheets = \<lparr>create_reply = Inl ''403'', get_reply = Inl ''400'', update_reply = None\<rparr>,
         catalog = [Response (page_reply [] False None)]\<rparr> =
     Some (Inr 1, [HttpGet SCRYFALL_SEARCH_ENDPOINT (Some ''set:tla''),
                   SheetsGet ''abc-1_2'' ''Sheet1!A12:A1'',
                   PrintErr (points_of ''Failed to read sheet values: 400'')])"
proof -
  let ?e = "\<lparr>credentials = Inr (),
         sheets = \<lparr>create_reply = Inl ''403'', get_reply = Inr [[''Aang'']], update_reply = None\<rparr>,
         catalog = [Response (page_reply [] False None)]\<rparr>"
  let ?e' = "\<lparr>credentials = Inr (),
         sheets = \<lparr>create_reply = Inl ''403'', get_reply = Inl ''400'', update_reply = None\<rparr>,
         catalog = [Response (page_reply [] False None)]\<rparr>"
  let ?a1 = "default_args\<lparr>sheet_url := Some ''https://docs.google.com/spreadsheets/d/abc-1_2/edit'',
                          start_row := - 1\<rparr>"
  let ?a2 = "default_args\<lparr>sheet_url := Some ''https://docs.google.com/spreadsheets/d/abc-1_2/edit'',
                            column := ''A1''\<rparr>"
  have c: "credentials ?e = Inr ()" by simp
  have c': "credentials ?e' = Inr ()" by simp
  have r1: "resolve_sheet ?a1 (sheets ?e) = (Inr ''abc-1_2'', [])" by code_simp
  have r2: "resolve_sheet ?a2 (sheets ?e) = (Inr ''abc-1_2'', [])" by code_simp
  have r2': "resolve_sheet ?a2 (sheets ?e') = (Inr ''abc-1_2'', [])" by code_simp
  have f: "fetch_scryfall_cards ''tla'' [Response (page_reply [] False None)] =
      Some (Inr Map.empty, [HttpGet SCRYFALL_SEARCH_ENDPOINT (Some ''set:tla'')])"
    by (simp add: fetch_scryfall_cards_def page_reply_def truthy_endpoint ok_def)
  have f1: "fetch_scryfall_cards (set_code ?a1) (catalog ?e) =
      Some (Inr Map.empty, [HttpGet SCRYFALL_SEARCH_ENDPOINT (Some ''set:tla'')])"
    using f by (simp add: default_args_def)
  have f2: "fetch_scryfall_cards (set_code ?a2) (catalog ?e) =
      Some (Inr Map.empty, [HttpGet SCRYFALL_SEARCH_ENDPOINT (Some ''set:tla'')])"
    using f by (simp add: default_args_def)
  have f2': "fetch_scryfall_cards (set_code ?a2) (catalog ?e') =
      Some (Inr Map.empty, [HttpGet SCRYFALL_SEARCH_ENDPOINT (Some ''set:tla'')])"
    using f by (simp add: default_args_def)
  have ci: "column_to_index (column ?a2) =
      Inl (SheetSyncError (points_of ''Invalid column reference: A1''))"
    by code_simp
  have s12: "py_str 2 = ''2''" by code_simp
  from main_validation [THEN conjunct1, rule_format, OF conjI [OF c conjI [OF r1 f1]],
      THEN conjunct1]
  have m1: "main ?a1 ?e = Some (Inr 1, [HttpGet SCRYFALL_SEARCH_ENDPOINT (Some ''set:tla''),
                   PrintErr (points_of ''start_row must be >= 1'')])"
    by (simp add: default_args_def)
  from main_validation [THEN conjunct1, rule_format, OF conjI [OF c conjI [OF r2 f2]],
      THEN conjunct2, rule_format, THEN conjunct1, rule_format,
      of "points_of ''Invalid column reference: A1''" "[[''Aang'']]"] ci
  have m2: "main ?a2 ?e = Some (Inr 1, [HttpGet SCRYFALL_SEARCH_ENDPOINT (Some ''set:tla''),
                   SheetsGet ''abc-1_2'' ''Sheet1!A12:A1'',
                   PrintErr (points_of ''Invalid column reference: A1'')])"
    by (simp add: default_args_def s12)
  from main_validation [THEN conjunct1, rule_format, OF conjI [OF c' conjI [OF r2' f2']],
      THEN conjunct2, rule_format, THEN conjunct2, rule_format,
      of "points_of ''Invalid column reference: A1''" "''400''"] ci
  have m3: "main ?a2 ?e' = Some (Inr 1, [HttpGet SCRYFALL_SEARCH_ENDPOINT (Some ''set:tla''),
                   SheetsGet ''abc-1_2'' ''Sheet1!A12:A1'',
                   PrintErr (points_of ''Failed to read sheet values: 400'')])"
    by (simp add: default_args_def s12)
  show ?thesis using m1 m2 m3 by blast
qed

end
